theory Spec2Isabelle
  imports Main "HOL-Library.AList"
begin

section \<open>Python values and objects read by the middleware\<close>

text \<open>
  The values a \<open>no_logging\<close> attribute can hold. The middleware only tests such a
  value for truth (\<open>if skip_logging_because:\<close>), so the model keeps the
  constructors whose truth value Python fixes: \<open>None\<close>, booleans, integers, strings.
\<close>

datatype pyval = PNone | PBool bool | PInt int | PStr string

fun truthy :: "pyval \<Rightarrow> bool" where
  "truthy PNone = False"
| "truthy (PBool b) = b"
| "truthy (PInt n) = (n \<noteq> 0)"
| "truthy (PStr s) = (s \<noteq> [])"

datatype exn =
    KeyError string
  | TypeError string
  | ValueError string
  | AttributeError string
  | Resolver404 string
  | HandlerError string

text \<open>
  An attribute of a view class (a handler method, or any other object): all the
  middleware reads from it is its \<open>no_logging\<close> attribute, absent (\<open>None\<close>) or set.
\<close>

record handler =
  no_logging :: "pyval option"

text \<open>
  A class is its attribute table. \<open>getattr(cls, name, None)\<close> is \<open>map_of\<close>.
\<close>

type_synonym pyclass = "(string \<times> handler) list"

text \<open>
  The callable that \<open>resolve(path).func\<close> returns. Each of the attributes that
  \<open>_should_log_route\<close> probes with \<open>hasattr\<close> is optional: \<open>cls\<close> (set by Django REST
  framework), \<open>actions\<close> (the action map of a view set, HTTP method name to
  action name), \<open>view_class\<close> (set by Django's class-based views), and the
  callable's own \<open>no_logging\<close> attribute.
\<close>

record view =
  cls :: "pyclass option"
  actions :: "(string \<times> string) list option"
  view_class :: "pyclass option"
  view_no_logging :: "pyval option"

text \<open>
  What the middleware reads from a request: \<open>request.method\<close>, \<open>request.path\<close>,
  \<open>request.get_full_path()\<close>, \<open>request.META\<close> and \<open>request.user.username\<close>. This
  record is a request on which each of these reads succeeds and gives a string; the
  requests on which a read fails are the \<open>request_obj\<close> of the second model below.
\<close>

record request =
  "method" :: string
  path :: string
  full_path :: string
  META :: "(string \<times> string) list"
  username :: string

record response =
  status_code :: int

section \<open>Strings\<close>

text \<open>
  \<open>str.lower\<close> on 8-bit characters: the ASCII capitals and the Latin-1 capitals
  (0xC0 to 0xDE without the multiplication sign 0xD7) move up by 32.
\<close>

definition lower_char :: "char \<Rightarrow> char" where
  "lower_char c =
     (let n = (of_char c :: nat) in
      if (65 \<le> n \<and> n \<le> 90) \<or> (192 \<le> n \<and> n \<le> 222 \<and> n \<noteq> 215)
      then char_of (n + 32) else c)"

definition lower :: "string \<Rightarrow> string" where
  "lower s = map lower_char s"

text \<open>\<open>k.startswith(p)\<close>.\<close>

fun startswith :: "string \<Rightarrow> string \<Rightarrow> bool" where
  "startswith s [] = True"
| "startswith [] (p # ps) = False"
| "startswith (c # cs) (p # ps) = (c = p \<and> startswith cs ps)"

text \<open>\<open>s.split(sep)\<close> with a one-character separator: never the empty list.\<close>

fun str_split :: "char \<Rightarrow> string \<Rightarrow> string list" where
  "str_split sep [] = [[]]"
| "str_split sep (c # cs) =
     (if c = sep then [] # str_split sep cs
      else (case str_split sep cs of
              [] \<Rightarrow> [[c]]
            | seg # segs \<Rightarrow> (c # seg) # segs))"

text \<open>\<open>re.split(r'\r?\n', s)\<close>: a line ends at LF or at CR LF; a lone CR stays.\<close>

fun re_split_lines :: "string \<Rightarrow> string list" where
  "re_split_lines [] = [[]]"
| "re_split_lines [c] = (if c = CHR 0x0A then [[], []] else [[c]])"
| "re_split_lines (c # d # ds) =
     (if c = CHR 0x0A then [] # re_split_lines (d # ds)
      else if c = CHR 0x0D \<and> d = CHR 0x0A then [] # re_split_lines ds
      else (case re_split_lines (d # ds) of
              [] \<Rightarrow> [[c]]
            | l # ls \<Rightarrow> (c # l) # ls))"

text \<open>\<open>'{}'.format(n)\<close> for an integer: decimal digits, a minus sign when negative.\<close>

definition digit_char :: "nat \<Rightarrow> char" where
  "digit_char d = char_of (48 + d)"

function show_nat :: "nat \<Rightarrow> string" where
  "show_nat n = (if n < 10 then [digit_char n] else show_nat (n div 10) @ [digit_char (n mod 10)])"
  by pat_completeness auto
termination
  by (relation "measure (\<lambda>n. n)") auto

declare show_nat.simps [simp del]

definition show_int :: "int \<Rightarrow> string" where
  "show_int i = (if i < 0 then CHR ''-'' # show_nat (nat (- i)) else show_nat (nat i))"

section \<open>Dictionaries\<close>

text \<open>
  A Python dict keeps insertion order and one entry per key: assigning to a key that
  is present replaces its value in place, assigning to a new key appends an entry.
  That is \<open>AList.update\<close>. \<open>d.update(e)\<close> assigns the entries of \<open>e\<close> in order.
\<close>

definition dict_update :: "('k \<times> 'v) list \<Rightarrow> ('k \<times> 'v) list \<Rightarrow> ('k \<times> 'v) list" where
  "dict_update d e = fold (\<lambda>(k, v) m. AList.update k v m) e d"

text \<open>\<open>d[k]\<close> raises \<open>KeyError\<close> on a missing key.\<close>

definition subscript :: "(string \<times> 'v) list \<Rightarrow> string \<Rightarrow> exn + 'v" where
  "subscript d k = (case map_of d k of None \<Rightarrow> Inl (KeyError k) | Some v \<Rightarrow> Inr v)"

section \<open>Module constants\<close>

definition NOTSET :: int where "NOTSET = 0"
definition DEBUG :: int where "DEBUG = 10"
definition INFO :: int where "INFO = 20"
definition WARNING :: int where "WARNING = 30"
definition ERROR :: int where "ERROR = 40"
definition CRITICAL :: int where "CRITICAL = 50"

definition DEFAULT_LOG_LEVEL :: int where
  "DEFAULT_LOG_LEVEL = DEBUG"

definition SETTING_log_level :: string where
  "SETTING_log_level = ''REQUEST_LOGGING_DATA_LOG_LEVEL''"

section \<open>Collaborators and observable effects\<close>

text \<open>
  A field value of the log message: \<open>status_code\<close> is an integer, the request data
  are strings (\<open>None\<close> for a request whose method is \<open>None\<close>), and \<open>time\<close> is
  \<open>delta.total_seconds()\<close>. A \<open>timedelta\<close> is an exact count of microseconds, so
  \<open>FSeconds us\<close> stands for the float \<open>us / 10^6\<close>: its sign is the sign of \<open>us\<close>.
\<close>

datatype field = FInt int | FSeconds int | FStr string | FNone

text \<open>
  The \<open>extra\<close> dictionary handed to the logging sink: the request and the response
  (\<open>_get_logging_context\<close>), or the reason for not logging (\<open>_skip_logging_request\<close>).
\<close>

datatype 'r logging_context =
    RequestContext 'r response
  | NoLoggingContext pyval

text \<open>
  The calls that leave the middleware, in the order they are made: the wrapped
  handler (\<open>self.get_response(request)\<close>), the router (\<open>resolve(request.path)\<close>),
  \<open>self.logger.log(level, msg, context)\<close> and, inside it,
  \<open>request_logger.log(level, line, ...)\<close> once per line. The type \<open>'r\<close> is the type of
  the request that is passed along.
\<close>

datatype 'r event =
    Delegate 'r
  | Resolve string
  | Emit int string "'r logging_context"
  | Sink int string "'r logging_context"

text \<open>
  The world threaded through a call: how many times the clock has been read, and the
  calls made so far.
\<close>

record 'r world =
  reads :: nat
  trace :: "'r event list"

text \<open>
  What the host supplies: the router (it may raise; \<open>'v\<close> is the type of the view it
  returns), the UTC wall clock in microseconds (\<open>now k\<close> is the value of the \<open>k\<close>-th
  reading; nothing orders two readings), and \<open>json.dumps\<close>.
\<close>

record 'v env =
  resolve :: "string \<Rightarrow> exn + 'v"
  now :: "nat \<Rightarrow> int"
  dumps :: "(string \<times> field) list \<Rightarrow> string"

definition utcnow :: "'v env \<Rightarrow> 'r world \<Rightarrow> int \<times> 'r world" where
  "utcnow env w = (now env (reads w), w\<lparr>reads := Suc (reads w)\<rparr>)"

section \<open>class Logger\<close>

definition Logger_log ::
  "int \<Rightarrow> string \<Rightarrow> 'r logging_context \<Rightarrow> 'r world \<Rightarrow> 'r world" where
  "Logger_log level msg logging_context w =
     w\<lparr>trace := trace w @ Emit level msg logging_context
                  # map (\<lambda>line. Sink level line logging_context) (re_split_lines msg)\<rparr>"

definition Logger_log_error ::
  "int \<Rightarrow> string \<Rightarrow> 'r logging_context \<Rightarrow> 'r world \<Rightarrow> 'r world" where
  "Logger_log_error level msg logging_context w = Logger_log level msg logging_context w"

section \<open>class LoggingMiddleware\<close>

text \<open>
  The state that \<open>__init__\<close> leaves on the instance. The handler may raise; an
  instance built without a handler (the default \<open>get_response=None\<close>) is one whose
  handler raises \<open>TypeError\<close> on every call.
\<close>

record 'r middleware =
  get_response :: "'r \<Rightarrow> exn + response"
  log_level :: int

text \<open>
  \<open>__init__\<close>. The settings object is a lookup from setting name to value, \<open>None\<close>
  when the setting is absent; the log level is a number.
\<close>

definition init ::
  "('r \<Rightarrow> exn + response) \<Rightarrow> (string \<Rightarrow> int option) \<Rightarrow> exn + 'r middleware" where
  "init get_response_arg settings =
     (let level = (case settings SETTING_log_level of
                     None \<Rightarrow> DEFAULT_LOG_LEVEL
                   | Some v \<Rightarrow> v)
      in if level \<notin> set [NOTSET, DEBUG, INFO, WARNING, ERROR, CRITICAL]
         then Inl (ValueError (''Unknown log level('' @ show_int level @ '') in setting(''
                               @ SETTING_log_level @ '')''))
         else Inr \<lparr>get_response = get_response_arg, log_level = level\<rparr>)"

text \<open>
  The object bound to \<open>func\<close> in \<open>_should_log_route\<close>: the view callable itself, an
  attribute found on a class, or \<open>None\<close> when \<open>getattr(..., None)\<close> found nothing.
\<close>

datatype func = FuncNone | FuncView view | FuncAttr handler

definition class_getattr :: "pyclass \<Rightarrow> string \<Rightarrow> func" where
  "class_getattr c name = (case map_of c name of None \<Rightarrow> FuncNone | Some h \<Rightarrow> FuncAttr h)"

text \<open>\<open>getattr(func, NO_LOGGING_ATTR, None)\<close>.\<close>

fun getattr_no_logging :: "func \<Rightarrow> pyval" where
  "getattr_no_logging FuncNone = PNone"
| "getattr_no_logging (FuncView v) = (case view_no_logging v of None \<Rightarrow> PNone | Some x \<Rightarrow> x)"
| "getattr_no_logging (FuncAttr h) = (case no_logging h of None \<Rightarrow> PNone | Some x \<Rightarrow> x)"

text \<open>
  \<open>_should_log_route\<close>. The bare \<open>except\<close> turns every failure of \<open>resolve\<close> into
  \<open>None\<close>. \<open>view.actions[method]\<close> is a subscript, which raises on a missing key.
\<close>

definition should_log_route ::
  "view env \<Rightarrow> request \<Rightarrow> request world \<Rightarrow> (exn + pyval) \<times> request world" where
  "should_log_route env request w =
     (let w' = w\<lparr>trace := trace w @ [Resolve (path request)]\<rparr> in
      case resolve env (path request) of
        Inl e \<Rightarrow> (Inr PNone, w')
      | Inr view \<Rightarrow>
          (let method = lower (method request);
               func = FuncView view
           in case cls view of
                Some c \<Rightarrow>
                  (case actions view of
                     Some acts \<Rightarrow>
                       (let method_name = map_of acts method in
                        if (case method_name of None \<Rightarrow> False | Some n \<Rightarrow> n \<noteq> [])
                        then (case subscript acts method of
                                Inl e \<Rightarrow> (Inl e, w')
                              | Inr name \<Rightarrow> (Inr (getattr_no_logging (class_getattr c name)), w'))
                        else (Inr (getattr_no_logging func), w'))
                   | None \<Rightarrow> (Inr (getattr_no_logging (class_getattr c method)), w'))
              | None \<Rightarrow>
                  (case view_class view of
                     Some vc \<Rightarrow> (Inr (getattr_no_logging (class_getattr vc method)), w')
                   | None \<Rightarrow> (Inr (getattr_no_logging func), w'))))"

text \<open>
  \<open>_skip_logging_request\<close>. The message is built with \<open>+\<close>, which raises
  \<open>TypeError\<close> unless the reason is a string. No method of the class calls it.
\<close>

definition skip_logging_request ::
  "request \<Rightarrow> pyval \<Rightarrow> request world \<Rightarrow> (exn + unit) \<times> request world" where
  "skip_logging_request request reason w =
     (let method_path = method request @ '' '' @ full_path request;
          no_log_context = NoLoggingContext reason
      in case reason of
           PStr r \<Rightarrow>
             (Inr (), Logger_log INFO
                        (method_path @ '' (not logged because '' @ [CHR 0x27] @ r @ [CHR 0x27] @ '')'')
                        no_log_context w)
         | _ \<Rightarrow> (Inl (TypeError ''can only concatenate str to str''), w))"

definition get_request_headers :: "request \<Rightarrow> (string \<times> string) list" where
  "get_request_headers request =
     dict_update [] (filter (\<lambda>(k, v). startswith k ''HTTP_'') (META request))"

definition get_logging_context :: "'r \<Rightarrow> response \<Rightarrow> 'r logging_context" where
  "get_logging_context request response = RequestContext request response"

text \<open>
  The message dictionary that \<open>process_response\<close> builds before it logs: status code
  and elapsed time, then \<open>req_info\<close>, then the headers, then one \<open>path_i\<close> entry per
  segment of \<open>req_info['path']\<close>.
\<close>

definition path_key :: "nat \<Rightarrow> string" where
  "path_key i = ''path_'' @ show_nat i"

definition build_message ::
  "int \<Rightarrow> int \<Rightarrow> (string \<times> string) list \<Rightarrow> (string \<times> string) list \<Rightarrow> exn + (string \<times> field) list" where
  "build_message status delta req_info headers =
     (let message = [(''status_code'', FInt status), (''time'', FSeconds delta)];
          message = dict_update message (map (\<lambda>(k, v). (k, FStr v)) req_info);
          message = dict_update message (map (\<lambda>(k, v). (k, FStr v)) headers)
      in case subscript req_info ''path'' of
           Inl e \<Rightarrow> Inl e
         | Inr p \<Rightarrow>
             Inr (fold (\<lambda>(i, seg) m. AList.update (path_key i) (FStr seg) m)
                       (enumerate 0 (str_split CHR ''/'' p)) message))"

definition process_response ::
  "request middleware \<Rightarrow> view env \<Rightarrow> request \<Rightarrow> response \<Rightarrow> int \<Rightarrow> (string \<times> string) list
     \<Rightarrow> (string \<times> string) list \<Rightarrow> request world \<Rightarrow> (exn + response) \<times> request world" where
  "process_response self env request response start_time req_info headers w =
     (case should_log_route env request w of
        (Inl e, w1) \<Rightarrow> (Inl e, w1)
      | (Inr skip_logging_because, w1) \<Rightarrow>
          if truthy skip_logging_because then (Inr response, w1)
          else
            (let logging_context = get_logging_context request response;
                 (t, w2) = utcnow env w1;
                 delta = t - start_time
             in case build_message (status_code response) delta req_info headers of
                  Inl e \<Rightarrow> (Inl e, w2)
                | Inr message \<Rightarrow>
                    (Inr response, Logger_log INFO (dumps env message) logging_context w2)))"

text \<open>\<open>__call__\<close>.\<close>

definition call ::
  "request middleware \<Rightarrow> view env \<Rightarrow> request \<Rightarrow> request world
     \<Rightarrow> (exn + response) \<times> request world" where
  "call self env request w =
     (let (start_time, w1) = utcnow env w;
          headers = get_request_headers request;
          req_info = [(''method'', method request), (''path'', path request),
                      (''user'', username request)];
          w2 = w1\<lparr>trace := trace w1 @ [Delegate request]\<rparr>
      in case get_response self request of
           Inl e \<Rightarrow> (Inl e, w2)
         | Inr response \<Rightarrow>
             (case process_response self env request response start_time req_info headers w2 of
                (Inl e, w3) \<Rightarrow> (Inl e, w3)
              | (Inr r, w3) \<Rightarrow> (Inr response, w3)))"

section \<open>The same methods on the objects that Python hands over\<close>

text \<open>
  The records \<open>request\<close> and \<open>view\<close> above hold what the middleware reads when every
  read succeeds and has the expected type. Python promises neither. Below, the objects
  carry what the source reads without a guard, and each such read is a branch of the
  method that makes it:
  \<^item> \<open>request.method\<close> is a string or \<open>None\<close> (as on a bare \<open>HttpRequest\<close>), and
    \<open>request.method.lower()\<close> raises \<open>AttributeError\<close> on \<open>None\<close>;
  \<^item> \<open>request.user.username\<close> raises \<open>AttributeError\<close> when the request has no user
    (no authentication middleware ran before this one) or the user has no \<open>username\<close>;
  \<^item> \<open>view.actions\<close>, when present, is a mapping from method names to values, or an
    object without \<open>get\<close> (\<open>None\<close>, for one), on which \<open>actions.get\<close> raises
    \<open>AttributeError\<close>;
  \<^item> \<open>getattr(view.cls, name, None)\<close> raises \<open>TypeError\<close> unless \<open>name\<close> is a string.
\<close>

record request_obj =
  obj_method :: "string option"
  obj_path :: string
  obj_full_path :: string
  obj_META :: "(string \<times> string) list"
  obj_username :: "string option"

datatype actions_value = ActionMap "(string \<times> pyval) list" | NotAMapping

record view_obj =
  obj_cls :: "pyclass option"
  obj_actions :: "actions_value option"
  obj_view_class :: "pyclass option"
  obj_no_logging :: "pyval option"

text \<open>
  \<open>_should_log_route\<close>. Only \<open>resolve(request.path)\<close> is inside the \<open>try\<close>.
\<close>

definition should_log_route_obj ::
  "view_obj env \<Rightarrow> request_obj \<Rightarrow> request_obj world
     \<Rightarrow> (exn + pyval) \<times> request_obj world" where
  "should_log_route_obj env request w =
     (let w' = w\<lparr>trace := trace w @ [Resolve (obj_path request)]\<rparr> in
      case resolve env (obj_path request) of
        Inl e \<Rightarrow> (Inr PNone, w')
      | Inr view \<Rightarrow>
          (case obj_method request of
             None \<Rightarrow> (Inl (AttributeError ''lower''), w')
           | Some m \<Rightarrow>
               (let method = lower m;
                    func = FuncAttr \<lparr>no_logging = obj_no_logging view\<rparr>
                in case obj_cls view of
                     Some c \<Rightarrow>
                       (case obj_actions view of
                          Some NotAMapping \<Rightarrow> (Inl (AttributeError ''get''), w')
                        | Some (ActionMap acts) \<Rightarrow>
                            (let method_name =
                                   (case map_of acts method of None \<Rightarrow> PNone | Some n \<Rightarrow> n)
                             in if truthy method_name
                                then (case subscript acts method of
                                        Inl e \<Rightarrow> (Inl e, w')
                                      | Inr (PStr name) \<Rightarrow>
                                          (Inr (getattr_no_logging (class_getattr c name)), w')
                                      | Inr other \<Rightarrow>
                                          (Inl (TypeError ''attribute name must be string''), w'))
                                else (Inr (getattr_no_logging func), w'))
                        | None \<Rightarrow> (Inr (getattr_no_logging (class_getattr c method)), w'))
                   | None \<Rightarrow>
                       (case obj_view_class view of
                          Some vc \<Rightarrow> (Inr (getattr_no_logging (class_getattr vc method)), w')
                        | None \<Rightarrow> (Inr (getattr_no_logging func), w')))))"

definition get_request_headers_obj :: "request_obj \<Rightarrow> (string \<times> string) list" where
  "get_request_headers_obj request =
     dict_update [] (filter (\<lambda>(k, v). startswith k ''HTTP_'') (obj_META request))"

text \<open>
  The message dictionary of \<open>process_response\<close>, for a \<open>req_info\<close> whose values need
  not be strings: \<open>path.split('/')\<close> raises \<open>AttributeError\<close> unless the path is one.
\<close>

definition build_message_obj ::
  "int \<Rightarrow> int \<Rightarrow> (string \<times> field) list \<Rightarrow> (string \<times> string) list \<Rightarrow> exn + (string \<times> field) list" where
  "build_message_obj status delta req_info headers =
     (let message = [(''status_code'', FInt status), (''time'', FSeconds delta)];
          message = dict_update message req_info;
          message = dict_update message (map (\<lambda>(k, v). (k, FStr v)) headers)
      in case subscript req_info ''path'' of
           Inl e \<Rightarrow> Inl e
         | Inr (FStr p) \<Rightarrow>
             Inr (fold (\<lambda>(i, seg) m. AList.update (path_key i) (FStr seg) m)
                       (enumerate 0 (str_split CHR ''/'' p)) message)
         | Inr other \<Rightarrow> Inl (AttributeError ''split''))"

definition process_response_obj ::
  "request_obj middleware \<Rightarrow> view_obj env \<Rightarrow> request_obj \<Rightarrow> response \<Rightarrow> int
     \<Rightarrow> (string \<times> field) list \<Rightarrow> (string \<times> string) list \<Rightarrow> request_obj world
     \<Rightarrow> (exn + response) \<times> request_obj world" where
  "process_response_obj self env request response start_time req_info headers w =
     (case should_log_route_obj env request w of
        (Inl e, w1) \<Rightarrow> (Inl e, w1)
      | (Inr skip_logging_because, w1) \<Rightarrow>
          if truthy skip_logging_because then (Inr response, w1)
          else
            (let logging_context = get_logging_context request response;
                 (t, w2) = utcnow env w1;
                 delta = t - start_time
             in case build_message_obj (status_code response) delta req_info headers of
                  Inl e \<Rightarrow> (Inl e, w2)
                | Inr message \<Rightarrow>
                    (Inr response, Logger_log INFO (dumps env message) logging_context w2)))"

text \<open>
  \<open>__call__\<close>. The clock is read and the headers are collected first; then \<open>req_info\<close>
  reads the method, the path and the user name, and only then the handler is called.
\<close>

definition call_obj ::
  "request_obj middleware \<Rightarrow> view_obj env \<Rightarrow> request_obj \<Rightarrow> request_obj world
     \<Rightarrow> (exn + response) \<times> request_obj world" where
  "call_obj self env request w =
     (let (start_time, w1) = utcnow env w;
          headers = get_request_headers_obj request
      in case obj_username request of
           None \<Rightarrow> (Inl (AttributeError ''user''), w1)
         | Some user \<Rightarrow>
             (let req_info = [(''method'', (case obj_method request of
                                             None \<Rightarrow> FNone | Some m \<Rightarrow> FStr m)),
                              (''path'', FStr (obj_path request)),
                              (''user'', FStr user)];
                  w2 = w1\<lparr>trace := trace w1 @ [Delegate request]\<rparr>
              in case get_response self request of
                   Inl e \<Rightarrow> (Inl e, w2)
                 | Inr response \<Rightarrow>
                     (case process_response_obj self env request response start_time
                             req_info headers w2 of
                        (Inl e, w3) \<Rightarrow> (Inl e, w3)
                      | (Inr r, w3) \<Rightarrow> (Inr response, w3))))"

text \<open>
  A \<open>request\<close>, a \<open>view\<close>, a host and a world of the first model, as objects: every
  attribute is there and has the expected type.
\<close>

definition request_obj_of :: "request \<Rightarrow> request_obj" where
  "request_obj_of r =
     \<lparr>obj_method = Some (method r), obj_path = path r, obj_full_path = full_path r,
      obj_META = META r, obj_username = Some (username r)\<rparr>"

definition view_obj_of :: "view \<Rightarrow> view_obj" where
  "view_obj_of v =
     \<lparr>obj_cls = cls v,
      obj_actions = map_option (\<lambda>acts. ActionMap (map (\<lambda>(k, name). (k, PStr name)) acts))
                      (actions v),
      obj_view_class = view_class v,
      obj_no_logging = view_no_logging v\<rparr>"

definition env_obj_of :: "view env \<Rightarrow> view_obj env" where
  "env_obj_of env =
     \<lparr>resolve = (\<lambda>p. case resolve env p of Inl e \<Rightarrow> Inl e | Inr v \<Rightarrow> Inr (view_obj_of v)),
      now = now env, dumps = dumps env\<rparr>"

definition world_obj_of :: "request world \<Rightarrow> request_obj world" where
  "world_obj_of w = \<lparr>reads = reads w, trace = map (map_event request_obj_of) (trace w)\<rparr>"

section \<open>Reading a trace\<close>

fun is_delegate :: "'r event \<Rightarrow> bool" where
  "is_delegate (Delegate r) = True"
| "is_delegate e = False"

fun is_emit :: "'r event \<Rightarrow> bool" where
  "is_emit (Emit l m c) = True"
| "is_emit e = False"

text \<open>A structured log record: a call of \<open>Logger.log\<close> with the request context.\<close>

fun is_record :: "'r event \<Rightarrow> bool" where
  "is_record (Emit l m (RequestContext rq rs)) = True"
| "is_record e = False"

text \<open>A suppressed notice: a call of \<open>Logger.log\<close> with the \<open>no_logging\<close> context.\<close>

fun is_notice :: "'r event \<Rightarrow> bool" where
  "is_notice (Emit l m (NoLoggingContext v)) = True"
| "is_notice e = False"

fun is_sink :: "'r event \<Rightarrow> bool" where
  "is_sink (Sink l m c) = True"
| "is_sink e = False"

section \<open>A serializer for concrete runs\<close>

text \<open>
  \<open>json.dumps\<close> belongs to the Python library, so the middleware above takes it from
  the environment. Concrete runs below use this encoder for it: an object of
  \<open>"key": value\<close> pairs, strings quoted with the quote, the backslash, LF and CR
  escaped, elapsed time written as a count of microseconds with exponent \<open>e-06\<close>.
\<close>

fun json_escape :: "string \<Rightarrow> string" where
  "json_escape [] = []"
| "json_escape (c # cs) =
     (if c = CHR 0x22 then [CHR 0x5C, CHR 0x22]
      else if c = CHR 0x5C then [CHR 0x5C, CHR 0x5C]
      else if c = CHR 0x0A then [CHR 0x5C, CHR ''n'']
      else if c = CHR 0x0D then [CHR 0x5C, CHR ''r'']
      else [c]) @ json_escape cs"

definition json_string :: "string \<Rightarrow> string" where
  "json_string s = CHR 0x22 # json_escape s @ [CHR 0x22]"

fun json_value :: "field \<Rightarrow> string" where
  "json_value (FInt n) = show_int n"
| "json_value (FSeconds us) = show_int us @ ''e-06''"
| "json_value (FStr s) = json_string s"
| "json_value FNone = ''null''"

fun json_items :: "(string \<times> field) list \<Rightarrow> string" where
  "json_items [] = []"
| "json_items [(k, v)] = json_string k @ '': '' @ json_value v"
| "json_items ((k, v) # kv # rest) =
     json_string k @ '': '' @ json_value v @ '', '' @ json_items (kv # rest)"

definition sample_dumps :: "(string \<times> field) list \<Rightarrow> string" where
  "sample_dumps m = ''{'' @ json_items m @ ''}''"

section \<open>Concrete requests, routes and hosts\<close>

text \<open>The inputs at which the theorems below are evaluated.\<close>

definition sample_request :: request where
  "sample_request =
     \<lparr>method = ''GET'', path = ''/a/b/c'', full_path = ''/a/b/c?page=2'',
      META = [(''HTTP_X_FOO'', ''bar''), (''CONTENT_LENGTH'', ''10'')],
      username = ''alice''\<rparr>"

definition sample_response :: response where
  "sample_response = \<lparr>status_code = 200\<rparr>"

text \<open>A function view, with the given \<open>no_logging\<close> attribute.\<close>

definition plain_view :: "pyval option \<Rightarrow> view" where
  "plain_view marker =
     \<lparr>cls = None, actions = None, view_class = None, view_no_logging = marker\<rparr>"

text \<open>A Django class-based view whose \<open>get\<close> method has the given attribute.\<close>

definition class_view :: "pyval option \<Rightarrow> view" where
  "class_view marker =
     \<lparr>cls = None, actions = None,
      view_class = Some [(''get'', \<lparr>no_logging = marker\<rparr>)],
      view_no_logging = None\<rparr>"

text \<open>
  A REST framework view set that routes only \<open>post\<close> (to \<open>create\<close>); the view
  callable itself has the given attribute.
\<close>

definition viewset_view :: "pyval option \<Rightarrow> view" where
  "viewset_view marker =
     \<lparr>cls = Some [(''create'', \<lparr>no_logging = None\<rparr>)],
      actions = Some [(''post'', ''create'')],
      view_class = None, view_no_logging = marker\<rparr>"

text \<open>
  A host whose router knows the path \<open>/a/b/c\<close> only, whose clock reads \<open>t0\<close> first
  and \<open>t1\<close> afterwards, and which serializes with \<open>sample_dumps\<close>.
\<close>

definition sample_env :: "view \<Rightarrow> int \<Rightarrow> int \<Rightarrow> view env" where
  "sample_env v t0 t1 =
     \<lparr>resolve = (\<lambda>p. if p = ''/a/b/c'' then Inr v else Inl (Resolver404 p)),
      now = (\<lambda>k. if k = 0 then t0 else t1),
      dumps = sample_dumps\<rparr>"

definition sample_handler :: "'r \<Rightarrow> exn + response" where
  "sample_handler r = Inr sample_response"

definition sample_settings :: "int \<Rightarrow> string \<Rightarrow> int option" where
  "sample_settings level name = (if name = SETTING_log_level then Some level else None)"

definition no_settings :: "string \<Rightarrow> int option" where
  "no_settings name = None"

definition world0 :: "'r world" where
  "world0 = \<lparr>reads = 0, trace = []\<rparr>"

text \<open>The sample request and host as objects.\<close>

definition sample_request_obj :: request_obj where
  "sample_request_obj =
     \<lparr>obj_method = Some ''GET'', obj_path = ''/a/b/c'', obj_full_path = ''/a/b/c?page=2'',
      obj_META = [(''HTTP_X_FOO'', ''bar''), (''CONTENT_LENGTH'', ''10'')],
      obj_username = Some ''alice''\<rparr>"

definition sample_env_obj :: "view_obj \<Rightarrow> int \<Rightarrow> int \<Rightarrow> view_obj env" where
  "sample_env_obj v t0 t1 =
     \<lparr>resolve = (\<lambda>p. if p = ''/a/b/c'' then Inr v else Inl (Resolver404 p)),
      now = (\<lambda>k. if k = 0 then t0 else t1),
      dumps = sample_dumps\<rparr>"

section \<open>Properties of the string and dictionary operations\<close>

subsection \<open>Decimal rendering\<close>

lemma digit_char_inj:
  assumes "a < 10" "b < 10" "digit_char a = digit_char b"
  shows "a = b"
proof -
  have "(of_char (digit_char a) :: nat) = of_char (digit_char b)"
    using assms(3) by simp
  then have "(48 + a) mod 256 = (48 + b) mod 256"
    by (simp add: digit_char_def)
  with assms(1,2) show ?thesis by simp
qed

lemma show_nat_not_Nil: "show_nat n \<noteq> []"
  by (subst show_nat.simps) simp

lemma show_nat_inj: "show_nat n = show_nat m \<Longrightarrow> n = m"
proof (induction n arbitrary: m rule: show_nat.induct)
  case (1 n)
  show ?case
  proof (cases "n < 10")
    case small_n: True
    show ?thesis
    proof (cases "m < 10")
      case True
      with small_n "1.prems" show ?thesis
        by (simp add: show_nat.simps [of n] show_nat.simps [of m] digit_char_inj)
    next
      case False
      with small_n "1.prems" show ?thesis
        using show_nat_not_Nil [of "m div 10"]
        by (simp add: show_nat.simps [of n] show_nat.simps [of m])
    qed
  next
    case big_n: False
    show ?thesis
    proof (cases "m < 10")
      case True
      with big_n "1.prems" show ?thesis
        using show_nat_not_Nil [of "n div 10"]
        by (simp add: show_nat.simps [of n] show_nat.simps [of m])
    next
      case False
      with big_n "1.prems" have
        eq: "show_nat (n div 10) = show_nat (m div 10)"
        and d: "digit_char (n mod 10) = digit_char (m mod 10)"
        by (simp_all add: show_nat.simps [of n] show_nat.simps [of m])
      from "1.IH" [OF big_n eq] have "n div 10 = m div 10" .
      moreover from d have "n mod 10 = m mod 10"
        by (rule digit_char_inj [rotated 2]) simp_all
      ultimately show ?thesis
        by (metis div_mult_mod_eq)
    qed
  qed
qed

lemma path_key_inj: "path_key i = path_key j \<Longrightarrow> i = j"
  by (simp add: path_key_def show_nat_inj)

lemma path_key_not_fixed:
  "path_key i \<noteq> ''status_code''" "path_key i \<noteq> ''time''" "path_key i \<noteq> ''method''"
  "path_key i \<noteq> ''path''" "path_key i \<noteq> ''user''"
  by (simp_all add: path_key_def)

lemma path_key_not_HTTP: "\<not> startswith (path_key i) ''HTTP_''"
  by (simp add: path_key_def)

subsection \<open>Dictionaries\<close>

lemma map_of_dict_update: "map_of (dict_update d e) = map_of d ++ map_of (rev e)"
proof (induction e arbitrary: d)
  case Nil
  show ?case by (simp add: dict_update_def)
next
  case (Cons kv e)
  obtain k v where kv: "kv = (k, v)" by (cases kv)
  have "dict_update d (kv # e) = dict_update (AList.update k v d) e"
    by (simp add: dict_update_def kv)
  then have "map_of (dict_update d (kv # e)) = (map_of d)(k \<mapsto> v) ++ map_of (rev e)"
    by (simp only: Cons.IH AList.update_conv')
  also have "\<dots> = map_of d ++ map_of (rev (kv # e))"
    by (simp add: kv fun_eq_iff map_add_def split: option.splits)
  finally show ?case .
qed

lemma map_of_rev_distinct:
  "distinct (map fst e) \<Longrightarrow> map_of (rev e) = map_of e"
proof (induction e)
  case Nil
  show ?case by simp
next
  case (Cons kv e)
  then have notin: "fst kv \<notin> fst ` set e" and IH: "map_of (rev e) = map_of e" by auto
  have "map_of e (fst kv) = None"
    using notin by (simp add: map_of_eq_None_iff)
  then show ?case
    by (cases kv) (auto simp: IH fun_eq_iff map_add_def split: option.splits)
qed

lemma keys_dict_update: "fst ` set (dict_update d e) = fst ` set d \<union> fst ` set e"
proof -
  have "fst ` set (dict_update d e) = dom (map_of (dict_update d e))"
    by (simp add: dom_map_of_conv_image_fst)
  also have "\<dots> = fst ` set d \<union> fst ` set e"
    by (simp add: map_of_dict_update dom_map_of_conv_image_fst Un_commute)
  finally show ?thesis .
qed

lemma distinct_dict_update:
  "distinct (map fst d) \<Longrightarrow> distinct (map fst (dict_update d e))"
  unfolding dict_update_def
  by (induction e arbitrary: d) (auto simp: AList.distinct_update)

lemma map_of_filter_key:
  "map_of (filter (\<lambda>(k, v). P k) xs) k = (if P k then map_of xs k else None)"
  by (induction xs) auto

lemma map_of_map_FStr:
  "map_of (map (\<lambda>(k, v). (k, FStr v)) xs) k = map_option FStr (map_of xs k)"
  by (induction xs) auto

lemma keys_map_FStr: "map fst (map (\<lambda>(k, v). (k, FStr v)) xs) = map fst xs"
  by (induction xs) auto

subsection \<open>The forwarded headers\<close>

lemma headers_distinct: "distinct (map fst (get_request_headers request))"
  unfolding get_request_headers_def by (rule distinct_dict_update) simp

lemma headers_keys:
  "fst ` set (get_request_headers request) =
     {k \<in> fst ` set (META request). startswith k ''HTTP_''}"
  unfolding get_request_headers_def keys_dict_update by force

lemma headers_lookup:
  assumes "distinct (map fst (META request))"
  shows "map_of (get_request_headers request) k =
           (if startswith k ''HTTP_'' then map_of (META request) k else None)"
proof -
  have "distinct (map fst (filter (\<lambda>(k, v). startswith k ''HTTP_'') (META request)))"
    using assms by (simp add: distinct_map_filter)
  then show ?thesis
    by (simp add: get_request_headers_def map_of_dict_update map_of_rev_distinct
        map_of_filter_key)
qed

subsection \<open>The path entries\<close>

lemma path_entries_keys:
  "map fst (map (\<lambda>(i, seg). (path_key i, FStr seg)) (enumerate n segs)) =
     map path_key [n..<n + length segs]"
proof -
  have "map fst (map (\<lambda>(i, seg). (path_key i, FStr seg)) (enumerate n segs)) =
          map (path_key \<circ> fst) (enumerate n segs)"
    by (simp add: comp_def case_prod_beta)
  also have "\<dots> = map path_key (map fst (enumerate n segs))"
    by (simp only: map_map)
  also have "\<dots> = map path_key [n..<n + length segs]"
    by (simp only: map_fst_enumerate)
  finally show ?thesis .
qed

lemma path_entries_distinct:
  "distinct (map fst (map (\<lambda>(i, seg). (path_key i, FStr seg)) (enumerate n segs)))"
  unfolding path_entries_keys
  by (simp add: distinct_map inj_on_def path_key_inj)

lemma path_entries_hit:
  assumes "i < length segs"
  shows "map_of (map (\<lambda>(i, seg). (path_key i, FStr seg)) (enumerate 0 segs)) (path_key i) =
           Some (FStr (segs ! i))"
proof -
  have "(i, segs ! i) \<in> set (enumerate 0 segs)"
    using assms by (simp add: in_set_enumerate_eq)
  then have "(path_key i, FStr (segs ! i)) \<in>
               set (map (\<lambda>(i, seg). (path_key i, FStr seg)) (enumerate 0 segs))"
    by force
  then show ?thesis
    using path_entries_distinct [of 0 segs] by (simp only: map_of_eq_Some_iff)
qed

lemma path_entries_miss:
  assumes "\<And>i. i < length segs \<Longrightarrow> k \<noteq> path_key i"
  shows "map_of (map (\<lambda>(i, seg). (path_key i, FStr seg)) (enumerate 0 segs)) k = None"
proof -
  have notin: "k \<notin> set (map path_key [0..<0 + length segs])"
  proof
    assume "k \<in> set (map path_key [0..<0 + length segs])"
    then obtain i where "i < length segs" "k = path_key i" by auto
    with assms show False by blast
  qed
  have e: "fst ` set (map (\<lambda>(i, seg). (path_key i, FStr seg)) (enumerate 0 segs)) =
             set (map path_key [0..<0 + length segs])"
    by (simp only: set_map [symmetric] path_entries_keys)
  show ?thesis
    unfolding map_of_eq_None_iff e by (rule notin)
qed

subsection \<open>The message dictionary\<close>

lemma build_message_eq:
  "build_message status delta [(''method'', m), (''path'', p), (''user'', u)] headers =
     Inr (dict_update
            (dict_update
               [(''status_code'', FInt status), (''time'', FSeconds delta),
                (''method'', FStr m), (''path'', FStr p), (''user'', FStr u)]
               (map (\<lambda>(k, v). (k, FStr v)) headers))
            (map (\<lambda>(i, seg). (path_key i, FStr seg)) (enumerate 0 (str_split CHR ''/'' p))))"
proof -
  have f: "(\<lambda>(i, seg) m. AList.update (path_key i) (FStr seg) m) =
             (\<lambda>(k, v) m. AList.update k v m) \<circ> (\<lambda>(i, seg). (path_key i, FStr seg))"
    by (simp add: fun_eq_iff)
  show ?thesis
    by (simp add: build_message_def subscript_def dict_update_def fold_map f)
qed

lemma message_distinct:
  assumes "build_message status delta [(''method'', m), (''path'', p), (''user'', u)] headers
             = Inr msg"
  shows "distinct (map fst msg)"
proof -
  have "distinct (map fst [(''status_code'', FInt status), (''time'', FSeconds delta),
                (''method'', FStr m), (''path'', FStr p), (''user'', FStr u)])"
    by simp
  then show ?thesis
    using assms unfolding build_message_eq
    by (auto intro!: distinct_dict_update)
qed

subsection \<open>The suppression resolver\<close>

lemma should_log_route_world:
  "snd (should_log_route env request w) = w\<lparr>trace := trace w @ [Resolve (path request)]\<rparr>"
  by (simp add: should_log_route_def Let_def split: sum.splits option.splits)

lemma should_log_route_value:
  "fst (should_log_route env request w) = fst (should_log_route env request w')"
  by (simp add: should_log_route_def Let_def split: sum.splits option.splits)

lemma should_log_route_eq:
  assumes "fst (should_log_route env request w0) = Inr v"
  shows "should_log_route env request w = (Inr v, w\<lparr>trace := trace w @ [Resolve (path request)]\<rparr>)"
proof (rule prod_eqI)
  show "fst (should_log_route env request w) =
          fst (Inr v :: exn + pyval, w\<lparr>trace := trace w @ [Resolve (path request)]\<rparr>)"
    using assms should_log_route_value [of env request w w0] by simp
  show "snd (should_log_route env request w) =
          snd (Inr v :: exn + pyval, w\<lparr>trace := trace w @ [Resolve (path request)]\<rparr>)"
    by (simp add: should_log_route_world)
qed

subsection \<open>One call of the middleware\<close>

lemma call_handler_raises:
  assumes "get_response self request = Inl e"
  shows "call self env request w =
           (Inl e, w\<lparr>reads := Suc (reads w), trace := trace w @ [Delegate request]\<rparr>)"
  using assms by (simp add: call_def utcnow_def)

lemma call_suppressed:
  assumes "get_response self request = Inr response"
    and "fst (should_log_route env request w0) = Inr v"
    and "truthy v"
  shows "call self env request w =
           (Inr response,
            w\<lparr>reads := Suc (reads w),
              trace := trace w @ [Delegate request, Resolve (path request)]\<rparr>)"
  using assms(1,3)
  by (simp add: call_def utcnow_def process_response_def should_log_route_eq [OF assms(2)])

lemma call_logged:
  assumes "get_response self request = Inr response"
    and "fst (should_log_route env request w0) = Inr v"
    and "\<not> truthy v"
  shows "\<exists>msg.
           build_message (status_code response) (now env (Suc (reads w)) - now env (reads w))
             [(''method'', method request), (''path'', path request), (''user'', username request)]
             (get_request_headers request) = Inr msg \<and>
           call self env request w =
             (Inr response,
              w\<lparr>reads := Suc (Suc (reads w)),
                trace := trace w @
                  [Delegate request, Resolve (path request),
                   Emit INFO (dumps env msg) (RequestContext request response)] @
                  map (\<lambda>line. Sink INFO line (RequestContext request response))
                      (re_split_lines (dumps env msg))\<rparr>)"
  using assms(1,3)
  by (simp add: call_def utcnow_def process_response_def should_log_route_eq [OF assms(2)]
      build_message_eq Logger_log_def get_logging_context_def Let_def)

lemma filter_sinks:
  "filter is_record (map (\<lambda>line. Sink l line c) ls) = []"
  "filter is_notice (map (\<lambda>line. Sink l line c) ls) = []"
  "filter is_delegate (map (\<lambda>line. Sink l line c) ls) = []"
  "filter is_emit (map (\<lambda>line. Sink l line c) ls) = []"
  by (induction ls) simp_all

subsection \<open>Evaluation at the concrete inputs\<close>

lemma lower_GET: "lower ''GET'' = ''get''"
  by code_simp

lemma path_key_small:
  "path_key 0 = ''path_0''" "path_key 1 = ''path_1''"
  "path_key 2 = ''path_2''" "path_key 3 = ''path_3''"
  "path_key (Suc 0) = ''path_1''" "path_key (Suc (Suc 0)) = ''path_2''"
  "path_key (Suc (Suc (Suc 0))) = ''path_3''"
  by code_simp+

lemma sample_headers: "get_request_headers sample_request = [(''HTTP_X_FOO'', ''bar'')]"
  by (simp add: get_request_headers_def sample_request_def dict_update_def)

lemma sample_message:
  "build_message 200 d
     [(''method'', ''GET''), (''path'', ''/a/b/c''), (''user'', ''alice'')]
     [(''HTTP_X_FOO'', ''bar'')] =
   Inr [(''status_code'', FInt 200), (''time'', FSeconds d), (''method'', FStr ''GET''),
        (''path'', FStr ''/a/b/c''), (''user'', FStr ''alice''),
        (''HTTP_X_FOO'', FStr ''bar''), (''path_0'', FStr []), (''path_1'', FStr ''a''),
        (''path_2'', FStr ''b''), (''path_3'', FStr ''c'')]"
  by (simp add: build_message_def subscript_def dict_update_def enumerate_eq_zip
      path_key_small upt_rec)

lemma sample_route_plain:
  "fst (should_log_route (sample_env (plain_view m) t0 t1) sample_request w) =
     Inr (case m of None \<Rightarrow> PNone | Some x \<Rightarrow> x)"
  by (simp add: should_log_route_def sample_env_def sample_request_def plain_view_def)

lemma sample_route_class:
  "fst (should_log_route (sample_env (class_view m) t0 t1) sample_request w) =
     Inr (case m of None \<Rightarrow> PNone | Some x \<Rightarrow> x)"
  by (simp add: should_log_route_def sample_env_def sample_request_def class_view_def
      lower_GET class_getattr_def)

lemma sample_route_viewset:
  "fst (should_log_route (sample_env (viewset_view m) t0 t1) sample_request w) =
     Inr (case m of None \<Rightarrow> PNone | Some x \<Rightarrow> x)"
  by (simp add: should_log_route_def sample_env_def sample_request_def viewset_view_def
      lower_GET)

lemma sample_call_logged:
  assumes "fst (should_log_route (sample_env v t0 t1) sample_request world0) = Inr x"
    and "\<not> truthy x"
  shows "call \<lparr>get_response = sample_handler, log_level = l\<rparr> (sample_env v t0 t1)
           sample_request world0 =
         (Inr sample_response,
          \<lparr>reads = 2,
           trace =
             [Delegate sample_request, Resolve ''/a/b/c'',
              Emit INFO
                (sample_dumps
                   [(''status_code'', FInt 200), (''time'', FSeconds (t1 - t0)),
                    (''method'', FStr ''GET''), (''path'', FStr ''/a/b/c''),
                    (''user'', FStr ''alice''), (''HTTP_X_FOO'', FStr ''bar''),
                    (''path_0'', FStr []), (''path_1'', FStr ''a''),
                    (''path_2'', FStr ''b''), (''path_3'', FStr ''c'')])
                (RequestContext sample_request sample_response)] @
             map (\<lambda>line. Sink INFO line (RequestContext sample_request sample_response))
               (re_split_lines
                  (sample_dumps
                     [(''status_code'', FInt 200), (''time'', FSeconds (t1 - t0)),
                      (''method'', FStr ''GET''), (''path'', FStr ''/a/b/c''),
                      (''user'', FStr ''alice''), (''HTTP_X_FOO'', FStr ''bar''),
                      (''path_0'', FStr []), (''path_1'', FStr ''a''),
                      (''path_2'', FStr ''b''), (''path_3'', FStr ''c'')]))\<rparr>)"
proof -
  have h: "get_response \<lparr>get_response = sample_handler, log_level = l\<rparr> sample_request =
             Inr sample_response"
    by (simp add: sample_handler_def)
  have s: "status_code sample_response = 200" "method sample_request = ''GET''"
    "path sample_request = ''/a/b/c''" "username sample_request = ''alice''"
    by (simp_all add: sample_response_def sample_request_def)
  have e: "now (sample_env v t0 t1) (Suc (reads world0)) - now (sample_env v t0 t1) (reads world0)
             = t1 - t0" "dumps (sample_env v t0 t1) = sample_dumps"
    by (simp_all add: sample_env_def world0_def)
  from call_logged [OF h assms, of world0]
  show ?thesis
    unfolding s e sample_headers sample_message
    by (auto simp: world0_def)
qed

lemma sample_call_suppressed:
  assumes "fst (should_log_route (sample_env v t0 t1) sample_request world0) = Inr x"
    and "truthy x"
  shows "call \<lparr>get_response = sample_handler, log_level = l\<rparr> (sample_env v t0 t1)
           sample_request world0 =
         (Inr sample_response,
          \<lparr>reads = 1, trace = [Delegate sample_request, Resolve ''/a/b/c'']\<rparr>)"
proof -
  have h: "get_response \<lparr>get_response = sample_handler, log_level = l\<rparr> sample_request =
             Inr sample_response"
    by (simp add: sample_handler_def)
  from call_suppressed [OF h assms, of world0]
  show ?thesis
    by (simp add: world0_def sample_request_def)
qed

subsection \<open>Fields of the message\<close>

lemma build_message_general:
  assumes "build_message status delta req_info headers = Inr msg"
  shows "\<exists>p. map_of req_info ''path'' = Some p \<and>
           msg = dict_update
                   (dict_update
                      (dict_update [(''status_code'', FInt status), (''time'', FSeconds delta)]
                         (map (\<lambda>(k, v). (k, FStr v)) req_info))
                      (map (\<lambda>(k, v). (k, FStr v)) headers))
                   (map (\<lambda>(i, seg). (path_key i, FStr seg))
                      (enumerate 0 (str_split CHR ''/'' p)))"
proof -
  have f: "(\<lambda>(i, seg) m. AList.update (path_key i) (FStr seg) m) =
             (\<lambda>(k, v) m. AList.update k v m) \<circ> (\<lambda>(i, seg). (path_key i, FStr seg))"
    by (simp add: fun_eq_iff)
  from assms obtain p where p: "map_of req_info ''path'' = Some p"
    by (cases "map_of req_info ''path''") (simp_all add: build_message_def subscript_def Let_def)
  with assms show ?thesis
    by (auto simp: build_message_def subscript_def Let_def fold_map f dict_update_def)
qed

lemma message_path_field:
  assumes "build_message status delta req_info headers = Inr msg"
    and "map_of req_info ''path'' = Some p"
    and "i < length (str_split CHR ''/'' p)"
  shows "map_of msg (path_key i) = Some (FStr (str_split CHR ''/'' p ! i))"
proof -
  from build_message_general [OF assms(1)] assms(2)
  obtain d where "msg = dict_update d
      (map (\<lambda>(i, seg). (path_key i, FStr seg)) (enumerate 0 (str_split CHR ''/'' p)))"
    by auto
  then have "map_of msg = map_of d ++
      map_of (map (\<lambda>(i, seg). (path_key i, FStr seg)) (enumerate 0 (str_split CHR ''/'' p)))"
    by (simp only: map_of_dict_update map_of_rev_distinct [OF path_entries_distinct])
  then show ?thesis
    by (simp add: map_add_def path_entries_hit [OF assms(3)])
qed

lemma keys_FStr: "fst ` set (map (\<lambda>(k, v). (k, FStr v)) xs) = fst ` set xs"
  by (induction xs) auto

lemma keys_path_entries:
  "fst ` set (map (\<lambda>(i, seg). (path_key i, FStr seg)) (enumerate 0 segs)) =
     path_key ` {..<length segs}"
proof -
  have "fst ` set (map (\<lambda>(i, seg). (path_key i, FStr seg)) (enumerate 0 segs)) =
          set (map path_key [0..<0 + length segs])"
    by (simp only: set_map [symmetric] path_entries_keys)
  also have "\<dots> = path_key ` {..<length segs}"
    by (simp add: lessThan_atLeast0)
  finally show ?thesis .
qed

lemma headers_FStr_lookup:
  "map_of (rev (map (\<lambda>(k, v). (k, FStr v)) (get_request_headers request))) k =
     map_option FStr (map_of (get_request_headers request) k)"
proof -
  have d: "distinct (map fst (map (\<lambda>(k, v). (k, FStr v)) (get_request_headers request)))"
    using headers_distinct [of request] by (simp only: keys_map_FStr)
  show ?thesis
    by (simp only: map_of_rev_distinct [OF d] map_of_map_FStr)
qed

lemma message_keys:
  assumes "build_message status delta [(''method'', m), (''path'', p), (''user'', u)] headers
             = Inr msg"
  shows "fst ` set msg =
           {''status_code'', ''time'', ''method'', ''path'', ''user''} \<union> fst ` set headers \<union>
           path_key ` {..<length (str_split CHR ''/'' p)}"
proof -
  from assms have "msg =
     dict_update
       (dict_update
          [(''status_code'', FInt status), (''time'', FSeconds delta),
           (''method'', FStr m), (''path'', FStr p), (''user'', FStr u)]
          (map (\<lambda>(k, v). (k, FStr v)) headers))
       (map (\<lambda>(i, seg). (path_key i, FStr seg)) (enumerate 0 (str_split CHR ''/'' p)))"
    by (simp add: build_message_eq)
  then have "fst ` set msg =
      fst ` set [(''status_code'', FInt status), (''time'', FSeconds delta),
           (''method'', FStr m), (''path'', FStr p), (''user'', FStr u)] \<union>
      fst ` set headers \<union> path_key ` {..<length (str_split CHR ''/'' p)}"
    by (simp only: keys_dict_update keys_FStr keys_path_entries)
  then show ?thesis by simp
qed

lemma message_not_path_field:
  assumes "build_message status delta [(''method'', m), (''path'', p), (''user'', u)] headers
             = Inr msg"
    and "\<And>i. i < length (str_split CHR ''/'' p) \<Longrightarrow> k \<noteq> path_key i"
  shows "map_of msg k =
           (map_of [(''status_code'', FInt status), (''time'', FSeconds delta),
                    (''method'', FStr m), (''path'', FStr p), (''user'', FStr u)]
            ++ map_of (rev (map (\<lambda>(k, v). (k, FStr v)) headers))) k"
proof -
  from assms(1) have "msg =
     dict_update
       (dict_update
          [(''status_code'', FInt status), (''time'', FSeconds delta),
           (''method'', FStr m), (''path'', FStr p), (''user'', FStr u)]
          (map (\<lambda>(k, v). (k, FStr v)) headers))
       (map (\<lambda>(i, seg). (path_key i, FStr seg)) (enumerate 0 (str_split CHR ''/'' p)))"
    by (simp add: build_message_eq)
  then have "map_of msg =
      (map_of [(''status_code'', FInt status), (''time'', FSeconds delta),
                    (''method'', FStr m), (''path'', FStr p), (''user'', FStr u)]
       ++ map_of (rev (map (\<lambda>(k, v). (k, FStr v)) headers))) ++
      map_of (map (\<lambda>(i, seg). (path_key i, FStr seg)) (enumerate 0 (str_split CHR ''/'' p)))"
    by (simp only: map_of_dict_update map_of_rev_distinct [OF path_entries_distinct])
  then show ?thesis
    by (simp add: map_add_def path_entries_miss [OF assms(2)])
qed

lemma message_fixed_field:
  assumes "build_message status delta [(''method'', m), (''path'', p), (''user'', u)]
             (get_request_headers request) = Inr msg"
    and "k \<in> {''status_code'', ''time'', ''method'', ''path'', ''user''}"
  shows "map_of msg k =
           map_of [(''status_code'', FInt status), (''time'', FSeconds delta),
                   (''method'', FStr m), (''path'', FStr p), (''user'', FStr u)] k"
proof -
  have np: "\<And>i. k \<noteq> path_key i"
    using assms(2) path_key_not_fixed by auto
  have "\<not> startswith k ''HTTP_''"
    using assms(2) by auto
  then have "k \<notin> fst ` set (get_request_headers request)"
    by (simp add: headers_keys)
  then have "map_of (get_request_headers request) k = None"
    by (simp only: map_of_eq_None_iff not_False_eq_True)
  then have "map_of (rev (map (\<lambda>(k, v). (k, FStr v)) (get_request_headers request))) k = None"
    by (simp add: headers_FStr_lookup)
  with message_not_path_field [OF assms(1) np] show ?thesis
    by (simp add: map_add_def)
qed

lemma message_header_field:
  assumes "build_message status delta [(''method'', m), (''path'', p), (''user'', u)]
             (get_request_headers request) = Inr msg"
    and "distinct (map fst (META request))"
    and "startswith k ''HTTP_''"
    and "map_of (META request) k = Some x"
  shows "map_of msg k = Some (FStr x)"
proof -
  have np: "\<And>i. k \<noteq> path_key i"
    using assms(3) path_key_not_HTTP by auto
  have "map_of (get_request_headers request) k = Some x"
    using assms(3,4) by (simp add: headers_lookup [OF assms(2)])
  then have "map_of (rev (map (\<lambda>(k, v). (k, FStr v)) (get_request_headers request))) k =
               Some (FStr x)"
    by (simp add: headers_FStr_lookup)
  with message_not_path_field [OF assms(1) np] show ?thesis
    by (simp add: map_add_def)
qed

lemma lower_POST: "lower ''POST'' = ''post''"
  by code_simp

lemma path_key_4: "path_key 4 = ''path_4''"
  by code_simp

lemma process_response_ignores_log_level:
  "process_response (self\<lparr>log_level := level\<rparr>) env request response start_time req_info
     headers w =
   process_response self env request response start_time req_info headers w"
  by (simp add: process_response_def)

lemma filter_sink_lines:
  "filter is_sink (map (\<lambda>line. Sink l line c) ls) = map (\<lambda>line. Sink l line c) ls"
  by (induction ls) simp_all

subsection \<open>The methods on objects\<close>

lemma should_log_route_obj_world:
  "snd (should_log_route_obj env request w) =
     w\<lparr>trace := trace w @ [Resolve (obj_path request)]\<rparr>"
  by (simp add: should_log_route_obj_def Let_def
      split: sum.splits option.splits actions_value.splits pyval.splits)

lemma should_log_route_obj_value:
  "fst (should_log_route_obj env request w) = fst (should_log_route_obj env request w')"
  by (simp add: should_log_route_obj_def Let_def
      split: sum.splits option.splits actions_value.splits pyval.splits)

lemma should_log_route_obj_eq:
  assumes "fst (should_log_route_obj env request w0) = x"
  shows "should_log_route_obj env request w =
           (x, w\<lparr>trace := trace w @ [Resolve (obj_path request)]\<rparr>)"
proof (rule prod_eqI)
  show "fst (should_log_route_obj env request w) =
          fst (x, w\<lparr>trace := trace w @ [Resolve (obj_path request)]\<rparr>)"
    using assms should_log_route_obj_value [of env request w w0] by simp
  show "snd (should_log_route_obj env request w) =
          snd (x, w\<lparr>trace := trace w @ [Resolve (obj_path request)]\<rparr>)"
    by (simp add: should_log_route_obj_world)
qed

lemma re_split_lines_not_Nil: "re_split_lines s \<noteq> []"
  by (induction s rule: re_split_lines.induct) (auto split: list.splits)

lemma build_message_obj_of:
  "build_message_obj status delta (map (\<lambda>(k, v). (k, FStr v)) req_info) headers =
     build_message status delta req_info headers"
  by (simp add: build_message_obj_def build_message_def subscript_def map_of_map_FStr Let_def
      split: option.splits)

lemma map_of_action_names:
  "map_of (map (\<lambda>(k, name). (k, PStr name)) acts) k = map_option PStr (map_of acts k)"
  by (induction acts) auto

text \<open>On objects that come from the first model, the two models agree.\<close>

lemma should_log_route_obj_of:
  "fst (should_log_route_obj (env_obj_of env) (request_obj_of request) w') =
     fst (should_log_route env request w)"
  by (auto simp: should_log_route_obj_def should_log_route_def env_obj_of_def request_obj_of_def
      view_obj_of_def Let_def subscript_def map_of_action_names
      split: sum.splits option.splits)

lemma call_obj_of:
  "call_obj \<lparr>get_response = h, log_level = l\<rparr> (env_obj_of env) (request_obj_of request)
     (world_obj_of w) =
   (case call \<lparr>get_response = h \<circ> request_obj_of, log_level = l\<rparr> env request w of
      (result, w') \<Rightarrow> (result, world_obj_of w'))"
proof -
  obtain x where x: "fst (should_log_route env request w) = x"
    by simp
  have r: "should_log_route env request w' =
             (x, w'\<lparr>trace := trace w' @ [Resolve (path request)]\<rparr>)" for w'
    using x should_log_route_value [of env request w' w]
    by (intro prod_eqI) (simp_all add: should_log_route_world)
  have ro: "should_log_route_obj (env_obj_of env) (request_obj_of request) w' =
             (x, w'\<lparr>trace := trace w' @ [Resolve (path request)]\<rparr>)" for w'
    using x should_log_route_obj_of [of env request w' w]
    by (intro prod_eqI) (simp_all add: should_log_route_obj_world request_obj_of_def)
  have hd: "get_request_headers_obj (request_obj_of request) = get_request_headers request"
    by (simp add: get_request_headers_obj_def get_request_headers_def request_obj_of_def)
  have bm: "build_message_obj status delta
              [(''method'', FStr (method request)), (''path'', FStr (path request)),
               (''user'', FStr (username request))] headers =
            build_message status delta
              [(''method'', method request), (''path'', path request),
               (''user'', username request)] headers" for status delta headers
    using build_message_obj_of [of status delta
        "[(''method'', method request), (''path'', path request), (''user'', username request)]"
        headers]
    by simp
  have sel: "obj_username (request_obj_of request) = Some (username request)"
    "obj_method (request_obj_of request) = Some (method request)"
    "obj_path (request_obj_of request) = path request"
    by (simp_all add: request_obj_of_def)
  have env: "now (env_obj_of env) = now env" "dumps (env_obj_of env) = dumps env"
    by (simp_all add: env_obj_of_def)
  show ?thesis
    by (cases "h (request_obj_of request)"; cases x)
       (simp_all add: call_obj_def call_def process_response_obj_def process_response_def
          utcnow_def Let_def r ro hd bm sel env get_logging_context_def Logger_log_def
          world_obj_of_def build_message_eq
          split: sum.splits)
qed

lemma sample_objs:
  "request_obj_of sample_request = sample_request_obj"
  "env_obj_of (sample_env v t0 t1) = sample_env_obj (view_obj_of v) t0 t1"
  by (auto simp: request_obj_of_def sample_request_def sample_request_obj_def env_obj_of_def
      sample_env_def sample_env_obj_def)

lemma sample_route_obj:
  "fst (should_log_route_obj (sample_env_obj (view_obj_of v) t0 t1) sample_request_obj w') =
     fst (should_log_route (sample_env v t0 t1) sample_request w)"
  using should_log_route_obj_of [of "sample_env v t0 t1" sample_request w' w]
  by (simp add: sample_objs)

lemma call_obj_no_user:
  assumes "obj_username request = None"
  shows "call_obj self env request w =
           (Inl (AttributeError ''user''), w\<lparr>reads := Suc (reads w)\<rparr>)"
  using assms by (simp add: call_obj_def utcnow_def Let_def)

lemma call_obj_handler_raises:
  assumes "obj_username request = Some user"
    and "get_response self request = Inl e"
  shows "call_obj self env request w =
           (Inl e, w\<lparr>reads := Suc (reads w), trace := trace w @ [Delegate request]\<rparr>)"
  using assms by (simp add: call_obj_def utcnow_def Let_def)

lemma call_obj_resolver_raises:
  assumes "obj_username request = Some user"
    and "get_response self request = Inr response"
    and "fst (should_log_route_obj env request w0) = Inl e"
  shows "call_obj self env request w =
           (Inl e, w\<lparr>reads := Suc (reads w),
                     trace := trace w @ [Delegate request, Resolve (obj_path request)]\<rparr>)"
  using assms(1,2)
  by (simp add: call_obj_def utcnow_def Let_def process_response_obj_def
      should_log_route_obj_eq [OF assms(3)])

lemma call_obj_suppressed:
  assumes "obj_username request = Some user"
    and "get_response self request = Inr response"
    and "fst (should_log_route_obj env request w0) = Inr reason"
    and "truthy reason"
  shows "call_obj self env request w =
           (Inr response, w\<lparr>reads := Suc (reads w),
                     trace := trace w @ [Delegate request, Resolve (obj_path request)]\<rparr>)"
  using assms(1,2,4)
  by (simp add: call_obj_def utcnow_def Let_def process_response_obj_def
      should_log_route_obj_eq [OF assms(3)])

lemma build_message_obj_Inr:
  "\<exists>msg. build_message_obj status delta
            [(''method'', m), (''path'', FStr p), (''user'', u)] headers = Inr msg"
  by (simp add: build_message_obj_def subscript_def)

lemma call_obj_logged:
  assumes "obj_username request = Some user"
    and "get_response self request = Inr response"
    and "fst (should_log_route_obj env request w0) = Inr reason"
    and "\<not> truthy reason"
  shows "\<exists>msg.
           build_message_obj (status_code response)
             (now env (Suc (reads w)) - now env (reads w))
             [(''method'', (case obj_method request of None \<Rightarrow> FNone | Some m \<Rightarrow> FStr m)),
              (''path'', FStr (obj_path request)), (''user'', FStr user)]
             (get_request_headers_obj request) = Inr msg \<and>
           call_obj self env request w =
             (Inr response,
              w\<lparr>reads := Suc (Suc (reads w)),
                trace := trace w @
                  [Delegate request, Resolve (obj_path request),
                   Emit INFO (dumps env msg) (RequestContext request response)] @
                  map (\<lambda>line. Sink INFO line (RequestContext request response))
                      (re_split_lines (dumps env msg))\<rparr>)"
proof -
  obtain msg where m: "build_message_obj (status_code response)
             (now env (Suc (reads w)) - now env (reads w))
             [(''method'', (case obj_method request of None \<Rightarrow> FNone | Some m \<Rightarrow> FStr m)),
              (''path'', FStr (obj_path request)), (''user'', FStr user)]
             (get_request_headers_obj request) = Inr msg"
    using build_message_obj_Inr by blast
  show ?thesis
    using assms(1,2,4)
    by (intro exI [of _ msg])
       (simp add: m call_obj_def utcnow_def Let_def process_response_obj_def
          should_log_route_obj_eq [OF assms(3)] Logger_log_def get_logging_context_def)
qed

section \<open>The interceptor and its configuration\<close>

text \<open>
  C9, as amended. On a request whose user name cannot be read, the interceptor raises
  \<open>AttributeError\<close> before it calls the wrapped handler: the handler is not called and
  nothing is returned. On a request whose user name can be read, the handler is called
  exactly once, before the route is resolved and before anything is logged; what the
  handler raises is raised; and when the handler returns a response, the interceptor
  returns that response unchanged, whether or not logging is suppressed, unless the
  suppression resolver raises, and then the interceptor raises the same error.
\<close>

theorem call_obj_delegation:
  "(obj_username request = None \<longrightarrow>
      call_obj self env request w =
        (Inl (AttributeError ''user''), w\<lparr>reads := Suc (reads w)\<rparr>)) \<and>
   (\<forall>user. obj_username request = Some user \<longrightarrow>
      (\<exists>rest. trace (snd (call_obj self env request w)) = trace w @ Delegate request # rest \<and>
              filter is_delegate rest = []) \<and>
      (\<forall>e. get_response self request = Inl e \<longrightarrow> fst (call_obj self env request w) = Inl e) \<and>
      (\<forall>response. get_response self request = Inr response \<longrightarrow>
         fst (call_obj self env request w) =
           (case fst (should_log_route_obj env request w) of
              Inl e \<Rightarrow> Inl e
            | Inr reason \<Rightarrow> Inr response)))"
proof (intro conjI allI impI)
  assume "obj_username request = None"
  then show "call_obj self env request w =
        (Inl (AttributeError ''user''), w\<lparr>reads := Suc (reads w)\<rparr>)"
    by (rule call_obj_no_user)
next
  fix user e
  assume "obj_username request = Some user" and "get_response self request = Inl e"
  then show "fst (call_obj self env request w) = Inl e"
    by (simp add: call_obj_handler_raises)
next
  fix user response
  assume u: "obj_username request = Some user" and h: "get_response self request = Inr response"
  show "fst (call_obj self env request w) =
           (case fst (should_log_route_obj env request w) of
              Inl e \<Rightarrow> Inl e
            | Inr reason \<Rightarrow> Inr response)"
  proof (cases "fst (should_log_route_obj env request w)")
    case (Inl e)
    then show ?thesis
      by (simp add: call_obj_resolver_raises [OF u h Inl])
  next
    case (Inr reason)
    show ?thesis
    proof (cases "truthy reason")
      case True
      then show ?thesis
        by (simp add: Inr call_obj_suppressed [OF u h Inr True])
    next
      case False
      from call_obj_logged [OF u h Inr False, of w] show ?thesis
        by (auto simp: Inr)
    qed
  qed
next
  fix user
  assume u: "obj_username request = Some user"
  show "\<exists>rest. trace (snd (call_obj self env request w)) = trace w @ Delegate request # rest \<and>
              filter is_delegate rest = []"
  proof (cases "get_response self request")
    case (Inl e)
    then show ?thesis
      by (simp add: call_obj_handler_raises [OF u Inl])
  next
    case h: (Inr response)
    show ?thesis
    proof (cases "fst (should_log_route_obj env request w)")
      case (Inl e)
      then show ?thesis
        by (simp add: call_obj_resolver_raises [OF u h Inl])
    next
      case (Inr reason)
      show ?thesis
      proof (cases "truthy reason")
        case True
        then show ?thesis
          by (simp add: call_obj_suppressed [OF u h Inr True])
      next
        case False
        from call_obj_logged [OF u h Inr False, of w] show ?thesis
          by (auto simp: filter_sinks)
      qed
    qed
  qed
qed

theorem call_obj_delegation_witness:
  "obj_username (sample_request_obj\<lparr>obj_username := None\<rparr>) = None \<and>
   call_obj \<lparr>get_response = sample_handler, log_level = DEBUG\<rparr>
     (sample_env_obj (view_obj_of (plain_view None)) 5 9)
     (sample_request_obj\<lparr>obj_username := None\<rparr>) world0 =
     (Inl (AttributeError ''user''), \<lparr>reads = 1, trace = []\<rparr>) \<and>
   obj_username sample_request_obj = Some ''alice'' \<and>
   get_response \<lparr>get_response = sample_handler, log_level = DEBUG\<rparr> sample_request_obj =
     Inr sample_response \<and>
   (\<exists>rest. trace (snd (call_obj \<lparr>get_response = sample_handler, log_level = DEBUG\<rparr>
                         (sample_env_obj (view_obj_of (class_view (Some (PBool True)))) 5 9)
                         sample_request_obj world0)) = Delegate sample_request_obj # rest \<and>
           filter is_delegate rest = []) \<and>
   fst (call_obj \<lparr>get_response = sample_handler, log_level = DEBUG\<rparr>
          (sample_env_obj (view_obj_of (class_view (Some (PBool True)))) 5 9)
          sample_request_obj world0) = Inr sample_response"
proof -
  have n: "obj_username (sample_request_obj\<lparr>obj_username := None\<rparr>) = None"
    by simp
  have u: "obj_username sample_request_obj = Some ''alice''"
    by (simp add: sample_request_obj_def)
  have h: "get_response \<lparr>get_response = sample_handler, log_level = DEBUG\<rparr> sample_request_obj =
             Inr sample_response"
    by (simp add: sample_handler_def)
  have r: "fst (should_log_route_obj
                  (sample_env_obj (view_obj_of (class_view (Some (PBool True)))) 5 9)
                  sample_request_obj world0) = Inr (PBool True)"
    by (simp add: sample_route_obj [of _ _ _ _ world0] sample_route_class)
  have first: "call_obj \<lparr>get_response = sample_handler, log_level = DEBUG\<rparr>
     (sample_env_obj (view_obj_of (plain_view None)) 5 9)
     (sample_request_obj\<lparr>obj_username := None\<rparr>) world0 =
     (Inl (AttributeError ''user''), \<lparr>reads = 1, trace = []\<rparr>)"
    using call_obj_delegation
      [of "sample_request_obj\<lparr>obj_username := None\<rparr>"
          "\<lparr>get_response = sample_handler, log_level = DEBUG\<rparr>"
          "sample_env_obj (view_obj_of (plain_view None)) 5 9" world0] n
    by (simp add: world0_def)
  note t = call_obj_delegation
      [of sample_request_obj "\<lparr>get_response = sample_handler, log_level = DEBUG\<rparr>"
          "sample_env_obj (view_obj_of (class_view (Some (PBool True)))) 5 9" world0]
  from t u have second:
    "\<exists>rest. trace (snd (call_obj \<lparr>get_response = sample_handler, log_level = DEBUG\<rparr>
                         (sample_env_obj (view_obj_of (class_view (Some (PBool True)))) 5 9)
                         sample_request_obj world0)) = Delegate sample_request_obj # rest \<and>
           filter is_delegate rest = []"
    by (simp add: world0_def)
  from t u h r have third:
    "fst (call_obj \<lparr>get_response = sample_handler, log_level = DEBUG\<rparr>
          (sample_env_obj (view_obj_of (class_view (Some (PBool True)))) 5 9)
          sample_request_obj world0) = Inr sample_response"
    by simp
  from n first u h second third show ?thesis by (intro conjI)
qed

theorem handler_not_called_counterexample:
  "get_response \<lparr>get_response = sample_handler, log_level = DEBUG\<rparr>
     (sample_request_obj\<lparr>obj_username := None\<rparr>) = Inr sample_response \<and>
   call_obj \<lparr>get_response = sample_handler, log_level = DEBUG\<rparr>
     (sample_env_obj (view_obj_of (plain_view None)) 5 9)
     (sample_request_obj\<lparr>obj_username := None\<rparr>) world0 =
     (Inl (AttributeError ''user''), \<lparr>reads = 1, trace = []\<rparr>) \<and>
   get_response \<lparr>get_response = sample_handler, log_level = DEBUG\<rparr>
     (sample_request_obj\<lparr>obj_method := None\<rparr>) = Inr sample_response \<and>
   call_obj \<lparr>get_response = sample_handler, log_level = DEBUG\<rparr>
     (sample_env_obj (view_obj_of (plain_view None)) 5 9)
     (sample_request_obj\<lparr>obj_method := None\<rparr>) world0 =
     (Inl (AttributeError ''lower''),
      \<lparr>reads = 1,
       trace = [Delegate (sample_request_obj\<lparr>obj_method := None\<rparr>), Resolve ''/a/b/c'']\<rparr>)"
  by (simp add: call_obj_def utcnow_def Let_def process_response_obj_def
      should_log_route_obj_def sample_env_obj_def sample_request_obj_def sample_handler_def
      world0_def)

text \<open>
  C8. Construction fails exactly when the configured log level is present and is none
  of NOTSET, DEBUG, INFO, WARNING, ERROR, CRITICAL, and every failure is the
  configuration error (a \<open>ValueError\<close>). With the setting absent it succeeds with
  level DEBUG; with a standard level it succeeds with that level.
\<close>

theorem init_validates_log_level:
  "((\<exists>e. init h settings = Inl e) \<longleftrightarrow>
      (\<exists>v. settings SETTING_log_level = Some v \<and>
           v \<notin> {NOTSET, DEBUG, INFO, WARNING, ERROR, CRITICAL})) \<and>
   (settings SETTING_log_level = None \<longrightarrow>
      init h settings = Inr \<lparr>get_response = h, log_level = DEBUG\<rparr>) \<and>
   (\<forall>v. settings SETTING_log_level = Some v \<and>
        v \<in> {NOTSET, DEBUG, INFO, WARNING, ERROR, CRITICAL} \<longrightarrow>
      init h settings = Inr \<lparr>get_response = h, log_level = v\<rparr>) \<and>
   (\<forall>e. init h settings = Inl e \<longrightarrow> (\<exists>message. e = ValueError message))"
  by (cases "settings SETTING_log_level")
     (auto simp: init_def Let_def DEFAULT_LOG_LEVEL_def NOTSET_def DEBUG_def)

theorem init_validates_log_level_witness:
  "(\<exists>message. init sample_handler (sample_settings 25) = Inl (ValueError message)) \<and>
   init sample_handler no_settings = Inr \<lparr>get_response = sample_handler, log_level = DEBUG\<rparr> \<and>
   init sample_handler (sample_settings WARNING) =
     Inr \<lparr>get_response = sample_handler, log_level = WARNING\<rparr>"
  using init_validates_log_level [of sample_handler "sample_settings 25"]
    init_validates_log_level [of sample_handler no_settings]
    init_validates_log_level [of sample_handler "sample_settings WARNING"]
  by (auto simp: sample_settings_def no_settings_def NOTSET_def DEBUG_def INFO_def
      WARNING_def ERROR_def CRITICAL_def)

section \<open>Suppression\<close>

text \<open>
  C10. Take a request whose route resolves to a view, whose effective handler (the
  action method named by the action map on \<open>cls\<close>; the method of \<open>cls\<close> without an action
  map; the method of \<open>view_class\<close>; the view itself when it has neither, or when the
  action map names no action for the method) carries a
  \<open>no_logging\<close> marker that is falsy (\<open>False\<close>, \<open>0\<close>, the empty string, \<open>None\<close>), and
  whose handler returns. Then the resolver returns that marker and the request is not
  suppressed: the call returns the response; it emits, at INFO, the one structured
  record, with the response's status code, the elapsed time, the request's method, path
  and user and one field for each path segment, and hands each of its lines (at least
  one) to the sink; it emits no suppressed notice.
\<close>

theorem falsy_marker_is_logged:
  assumes "get_response self request = Inr response"
    and "resolve env (path request) = Inr v"
    and "(\<exists>c acts name h. cls v = Some c \<and> actions v = Some acts \<and>
            map_of acts (lower (method request)) = Some name \<and> name \<noteq> [] \<and>
            map_of c name = Some h \<and> no_logging h = Some marker) \<or>
         (\<exists>c h. cls v = Some c \<and> actions v = None \<and>
            map_of c (lower (method request)) = Some h \<and> no_logging h = Some marker) \<or>
         (\<exists>vc h. cls v = None \<and> view_class v = Some vc \<and>
            map_of vc (lower (method request)) = Some h \<and> no_logging h = Some marker) \<or>
         (cls v = None \<and> view_class v = None \<and> view_no_logging v = Some marker) \<or>
         (\<exists>c acts. cls v = Some c \<and> actions v = Some acts \<and>
            (map_of acts (lower (method request)) = None \<or>
             map_of acts (lower (method request)) = Some []) \<and>
            view_no_logging v = Some marker)"
    and "\<not> truthy marker"
  shows "fst (should_log_route env request w) = Inr marker \<and>
         (\<exists>msg.
            call self env request w =
              (Inr response,
               w\<lparr>reads := Suc (Suc (reads w)),
                 trace := trace w @
                   [Delegate request, Resolve (path request),
                    Emit INFO (dumps env msg) (RequestContext request response)] @
                   map (\<lambda>line. Sink INFO line (RequestContext request response))
                       (re_split_lines (dumps env msg))\<rparr>) \<and>
            re_split_lines (dumps env msg) \<noteq> [] \<and>
            map_of msg ''status_code'' = Some (FInt (status_code response)) \<and>
            map_of msg ''time'' =
              Some (FSeconds (now env (Suc (reads w)) - now env (reads w))) \<and>
            map_of msg ''method'' = Some (FStr (method request)) \<and>
            map_of msg ''path'' = Some (FStr (path request)) \<and>
            map_of msg ''user'' = Some (FStr (username request)) \<and>
            (\<forall>i < length (str_split CHR ''/'' (path request)).
               map_of msg (path_key i) = Some (FStr (str_split CHR ''/'' (path request) ! i)))) \<and>
         length (filter is_record (trace (snd (call self env request w)))) =
           Suc (length (filter is_record (trace w))) \<and>
         filter is_notice (trace (snd (call self env request w))) = filter is_notice (trace w)"
proof -
  have r: "fst (should_log_route env request w) = Inr marker"
    using assms(2,3)
    by (auto simp: should_log_route_def class_getattr_def subscript_def)
  from call_logged [OF assms(1) r assms(4), of w] obtain msg where
    b: "build_message (status_code response) (now env (Suc (reads w)) - now env (reads w))
          [(''method'', method request), (''path'', path request), (''user'', username request)]
          (get_request_headers request) = Inr msg"
    and c: "call self env request w =
             (Inr response,
              w\<lparr>reads := Suc (Suc (reads w)),
                trace := trace w @
                  [Delegate request, Resolve (path request),
                   Emit INFO (dumps env msg) (RequestContext request response)] @
                  map (\<lambda>line. Sink INFO line (RequestContext request response))
                      (re_split_lines (dumps env msg))\<rparr>)"
    by (elim exE conjE) (rule that)
  have fixed: "map_of msg ''status_code'' = Some (FInt (status_code response))"
    "map_of msg ''time'' = Some (FSeconds (now env (Suc (reads w)) - now env (reads w)))"
    "map_of msg ''method'' = Some (FStr (method request))"
    "map_of msg ''path'' = Some (FStr (path request))"
    "map_of msg ''user'' = Some (FStr (username request))"
    using message_fixed_field [OF b, of "''status_code''"]
      message_fixed_field [OF b, of "''time''"] message_fixed_field [OF b, of "''method''"]
      message_fixed_field [OF b, of "''path''"] message_fixed_field [OF b, of "''user''"]
    by simp_all
  have segs: "\<forall>i < length (str_split CHR ''/'' (path request)).
               map_of msg (path_key i) = Some (FStr (str_split CHR ''/'' (path request) ! i))"
    using message_path_field [OF b] by simp
  have "\<exists>msg.
            call self env request w =
              (Inr response,
               w\<lparr>reads := Suc (Suc (reads w)),
                 trace := trace w @
                   [Delegate request, Resolve (path request),
                    Emit INFO (dumps env msg) (RequestContext request response)] @
                   map (\<lambda>line. Sink INFO line (RequestContext request response))
                       (re_split_lines (dumps env msg))\<rparr>) \<and>
            re_split_lines (dumps env msg) \<noteq> [] \<and>
            map_of msg ''status_code'' = Some (FInt (status_code response)) \<and>
            map_of msg ''time'' =
              Some (FSeconds (now env (Suc (reads w)) - now env (reads w))) \<and>
            map_of msg ''method'' = Some (FStr (method request)) \<and>
            map_of msg ''path'' = Some (FStr (path request)) \<and>
            map_of msg ''user'' = Some (FStr (username request)) \<and>
            (\<forall>i < length (str_split CHR ''/'' (path request)).
               map_of msg (path_key i) = Some (FStr (str_split CHR ''/'' (path request) ! i)))"
    using c fixed segs re_split_lines_not_Nil [of "dumps env msg"]
    by (intro exI [of _ msg] conjI)
  moreover have "length (filter is_record (trace (snd (call self env request w)))) =
           Suc (length (filter is_record (trace w)))"
    "filter is_notice (trace (snd (call self env request w))) = filter is_notice (trace w)"
    by (simp_all add: c filter_sinks)
  ultimately show ?thesis
    using r by (intro conjI)
qed

theorem falsy_marker_is_logged_witness:
  "get_response \<lparr>get_response = sample_handler, log_level = DEBUG\<rparr> sample_request =
     Inr sample_response \<and>
   resolve (sample_env (class_view (Some (PBool False))) 5 9) (path sample_request) =
     Inr (class_view (Some (PBool False))) \<and>
   cls (class_view (Some (PBool False))) = None \<and>
   view_class (class_view (Some (PBool False))) = Some [(''get'', \<lparr>no_logging = Some (PBool False)\<rparr>)] \<and>
   map_of [(''get'', \<lparr>no_logging = Some (PBool False)\<rparr>)] (lower (method sample_request)) =
     Some \<lparr>no_logging = Some (PBool False)\<rparr> \<and>
   \<not> truthy (PBool False) \<and>
   fst (should_log_route (sample_env (class_view (Some (PBool False))) 5 9) sample_request world0)
     = Inr (PBool False) \<and>
   fst (call \<lparr>get_response = sample_handler, log_level = DEBUG\<rparr>
          (sample_env (class_view (Some (PBool False))) 5 9) sample_request world0) =
     Inr sample_response \<and>
   length (filter is_record
     (trace (snd (call \<lparr>get_response = sample_handler, log_level = DEBUG\<rparr>
                    (sample_env (class_view (Some (PBool False))) 5 9) sample_request world0))))
     = 1 \<and>
   filter is_notice
     (trace (snd (call \<lparr>get_response = sample_handler, log_level = DEBUG\<rparr>
                    (sample_env (class_view (Some (PBool False))) 5 9) sample_request world0)))
     = [] \<and>
   resolve (sample_env (plain_view (Some (PStr ''''))) 5 9) (path sample_request) =
     Inr (plain_view (Some (PStr ''''))) \<and>
   view_no_logging (plain_view (Some (PStr ''''))) = Some (PStr '''') \<and>
   \<not> truthy (PStr '''') \<and>
   fst (should_log_route (sample_env (plain_view (Some (PStr ''''))) 5 9) sample_request world0)
     = Inr (PStr '''') \<and>
   length (filter is_record
     (trace (snd (call \<lparr>get_response = sample_handler, log_level = DEBUG\<rparr>
                    (sample_env (plain_view (Some (PStr ''''))) 5 9) sample_request world0))))
     = 1"
proof -
  have h: "get_response \<lparr>get_response = sample_handler, log_level = DEBUG\<rparr> sample_request =
             Inr sample_response"
    by (simp add: sample_handler_def)
  have v1: "resolve (sample_env (class_view (Some (PBool False))) 5 9) (path sample_request) =
     Inr (class_view (Some (PBool False)))"
    by (simp add: sample_env_def sample_request_def)
  have c1: "cls (class_view (Some (PBool False))) = None"
    and vc1: "view_class (class_view (Some (PBool False))) =
                Some [(''get'', \<lparr>no_logging = Some (PBool False)\<rparr>)]"
    by (simp_all add: class_view_def)
  have m1: "map_of [(''get'', \<lparr>no_logging = Some (PBool False)\<rparr>)] (lower (method sample_request)) =
     Some \<lparr>no_logging = Some (PBool False)\<rparr>"
    by (simp add: sample_request_def lower_GET)
  have s1: "(\<exists>c acts name h. cls (class_view (Some (PBool False))) = Some c \<and>
            actions (class_view (Some (PBool False))) = Some acts \<and>
            map_of acts (lower (method sample_request)) = Some name \<and> name \<noteq> [] \<and>
            map_of c name = Some h \<and> no_logging h = Some (PBool False)) \<or>
         (\<exists>c h. cls (class_view (Some (PBool False))) = Some c \<and>
            actions (class_view (Some (PBool False))) = None \<and>
            map_of c (lower (method sample_request)) = Some h \<and>
            no_logging h = Some (PBool False)) \<or>
         (\<exists>vc h. cls (class_view (Some (PBool False))) = None \<and>
            view_class (class_view (Some (PBool False))) = Some vc \<and>
            map_of vc (lower (method sample_request)) = Some h \<and>
            no_logging h = Some (PBool False)) \<or>
         (cls (class_view (Some (PBool False))) = None \<and>
          view_class (class_view (Some (PBool False))) = None \<and>
          view_no_logging (class_view (Some (PBool False))) = Some (PBool False)) \<or>
         (\<exists>c acts. cls (class_view (Some (PBool False))) = Some c \<and> actions (class_view (Some (PBool False))) = Some acts \<and>
            (map_of acts (lower (method sample_request)) = None \<or>
             map_of acts (lower (method sample_request)) = Some []) \<and>
            view_no_logging (class_view (Some (PBool False))) = Some (PBool False))"
    using c1 vc1 m1 by simp
  have f1: "\<not> truthy (PBool False)" by simp
  have v2: "resolve (sample_env (plain_view (Some (PStr ''''))) 5 9) (path sample_request) =
     Inr (plain_view (Some (PStr '''')))"
    by (simp add: sample_env_def sample_request_def)
  have n2: "view_no_logging (plain_view (Some (PStr ''''))) = Some (PStr '''')"
    by (simp add: plain_view_def)
  have s2: "(\<exists>c acts name h. cls (plain_view (Some (PStr ''''))) = Some c \<and>
            actions (plain_view (Some (PStr ''''))) = Some acts \<and>
            map_of acts (lower (method sample_request)) = Some name \<and> name \<noteq> [] \<and>
            map_of c name = Some h \<and> no_logging h = Some (PStr '''')) \<or>
         (\<exists>c h. cls (plain_view (Some (PStr ''''))) = Some c \<and>
            actions (plain_view (Some (PStr ''''))) = None \<and>
            map_of c (lower (method sample_request)) = Some h \<and>
            no_logging h = Some (PStr '''')) \<or>
         (\<exists>vc h. cls (plain_view (Some (PStr ''''))) = None \<and>
            view_class (plain_view (Some (PStr ''''))) = Some vc \<and>
            map_of vc (lower (method sample_request)) = Some h \<and>
            no_logging h = Some (PStr '''')) \<or>
         (cls (plain_view (Some (PStr ''''))) = None \<and>
          view_class (plain_view (Some (PStr ''''))) = None \<and>
          view_no_logging (plain_view (Some (PStr ''''))) = Some (PStr '''')) \<or>
         (\<exists>c acts. cls (plain_view (Some (PStr ''''))) = Some c \<and> actions (plain_view (Some (PStr ''''))) = Some acts \<and>
            (map_of acts (lower (method sample_request)) = None \<or>
             map_of acts (lower (method sample_request)) = Some []) \<and>
            view_no_logging (plain_view (Some (PStr ''''))) = Some (PStr ''''))"
    by (simp add: plain_view_def)
  have f2: "\<not> truthy (PStr '''')" by simp
  note t1 = falsy_marker_is_logged [OF h v1 s1 f1, of world0]
  note t2 = falsy_marker_is_logged [OF h v2 s2 f2, of world0]
  have r1: "fst (should_log_route (sample_env (class_view (Some (PBool False))) 5 9)
                   sample_request world0) = Inr (PBool False)"
    using t1 by (elim conjE)
  have r2: "fst (should_log_route (sample_env (plain_view (Some (PStr ''''))) 5 9)
                   sample_request world0) = Inr (PStr '''')"
    using t2 by (elim conjE)
  have res: "fst (call \<lparr>get_response = sample_handler, log_level = DEBUG\<rparr>
          (sample_env (class_view (Some (PBool False))) 5 9) sample_request world0) =
     Inr sample_response"
    using t1 by (elim conjE exE) simp
  have n1: "length (filter is_record
     (trace (snd (call \<lparr>get_response = sample_handler, log_level = DEBUG\<rparr>
                    (sample_env (class_view (Some (PBool False))) 5 9) sample_request world0))))
     = 1"
    and q1: "filter is_notice
     (trace (snd (call \<lparr>get_response = sample_handler, log_level = DEBUG\<rparr>
                    (sample_env (class_view (Some (PBool False))) 5 9) sample_request world0)))
     = []"
    using t1 by (simp_all add: world0_def)
  have n2': "length (filter is_record
     (trace (snd (call \<lparr>get_response = sample_handler, log_level = DEBUG\<rparr>
                    (sample_env (plain_view (Some (PStr ''''))) 5 9) sample_request world0))))
     = 1"
    using t2 by (simp add: world0_def)
  from h v1 c1 vc1 m1 f1 r1 res n1 q1 v2 n2 f2 r2 n2' show ?thesis
    by (intro conjI)
qed

text \<open>
  C1, as amended. When the handler returns and the resolver's reason is truthy, the call
  sends nothing to the logger: no structured record and no suppressed notice.
  When the reason is not truthy, the call emits exactly one structured record and no
  notice.
\<close>

theorem suppression_outcome:
  assumes "get_response self request = Inr response"
    and "fst (should_log_route env request w) = Inr reason"
  shows "(truthy reason \<longrightarrow>
            filter is_emit (trace (snd (call self env request w))) = filter is_emit (trace w) \<and>
            filter is_sink (trace (snd (call self env request w))) = filter is_sink (trace w)) \<and>
         (\<not> truthy reason \<longrightarrow>
            length (filter is_record (trace (snd (call self env request w)))) =
              Suc (length (filter is_record (trace w))) \<and>
            filter is_notice (trace (snd (call self env request w))) =
              filter is_notice (trace w))"
proof (intro conjI impI)
  assume t: "truthy reason"
  from call_suppressed [OF assms t, of w]
  show "filter is_emit (trace (snd (call self env request w))) = filter is_emit (trace w)"
    and "filter is_sink (trace (snd (call self env request w))) = filter is_sink (trace w)"
    by simp_all
next
  assume f: "\<not> truthy reason"
  from call_logged [OF assms f, of w]
  show "length (filter is_record (trace (snd (call self env request w)))) =
          Suc (length (filter is_record (trace w)))"
    and "filter is_notice (trace (snd (call self env request w))) = filter is_notice (trace w)"
    by (auto simp: filter_sinks)
qed

theorem suppression_outcome_witness:
  "get_response \<lparr>get_response = sample_handler, log_level = DEBUG\<rparr> sample_request =
     Inr sample_response \<and>
   fst (should_log_route (sample_env (class_view (Some (PBool True))) 5 9) sample_request world0)
     = Inr (PBool True) \<and>
   truthy (PBool True) \<and>
   filter is_emit
     (trace (snd (call \<lparr>get_response = sample_handler, log_level = DEBUG\<rparr>
                    (sample_env (class_view (Some (PBool True))) 5 9) sample_request world0)))
     = [] \<and>
   filter is_sink
     (trace (snd (call \<lparr>get_response = sample_handler, log_level = DEBUG\<rparr>
                    (sample_env (class_view (Some (PBool True))) 5 9) sample_request world0)))
     = [] \<and>
   fst (should_log_route (sample_env (class_view None) 5 9) sample_request world0) = Inr PNone \<and>
   \<not> truthy PNone \<and>
   length (filter is_record
     (trace (snd (call \<lparr>get_response = sample_handler, log_level = DEBUG\<rparr>
                    (sample_env (class_view None) 5 9) sample_request world0)))) = 1 \<and>
   filter is_notice
     (trace (snd (call \<lparr>get_response = sample_handler, log_level = DEBUG\<rparr>
                    (sample_env (class_view None) 5 9) sample_request world0))) = []"
proof -
  have h: "get_response \<lparr>get_response = sample_handler, log_level = DEBUG\<rparr> sample_request =
             Inr sample_response"
    by (simp add: sample_handler_def)
  have r1: "fst (should_log_route (sample_env (class_view (Some (PBool True))) 5 9)
                   sample_request world0) = Inr (PBool True)"
    by (simp add: sample_route_class)
  have r2: "fst (should_log_route (sample_env (class_view None) 5 9) sample_request world0) =
              Inr PNone"
    by (simp add: sample_route_class)
  from suppression_outcome [OF h r1] suppression_outcome [OF h r2] h r1 r2 show ?thesis
    by (simp add: world0_def)
qed

theorem suppressed_notice_counterexample:
  "fst (should_log_route
          (sample_env (class_view (Some (PStr ''No logging for this endpoint''))) 5 9)
          sample_request world0) = Inr (PStr ''No logging for this endpoint'') \<and>
   call \<lparr>get_response = sample_handler, log_level = DEBUG\<rparr>
     (sample_env (class_view (Some (PStr ''No logging for this endpoint''))) 5 9)
     sample_request world0 =
     (Inr sample_response,
      \<lparr>reads = 1, trace = [Delegate sample_request, Resolve ''/a/b/c'']\<rparr>) \<and>
   filter is_notice [Delegate sample_request, Resolve ''/a/b/c''] = [] \<and>
   filter is_record [Delegate sample_request, Resolve ''/a/b/c''] = [] \<and>
   filter is_notice
     (trace (snd (skip_logging_request sample_request (PStr ''No logging for this endpoint'')
                    world0))) =
     [Emit INFO (''GET /a/b/c?page=2 (not logged because '' @ [CHR 0x27] @
                 ''No logging for this endpoint'' @ [CHR 0x27] @ '')'')
        (NoLoggingContext (PStr ''No logging for this endpoint''))]"
proof -
  have r: "fst (should_log_route
          (sample_env (class_view (Some (PStr ''No logging for this endpoint''))) 5 9)
          sample_request world0) = Inr (PStr ''No logging for this endpoint'')"
    by (simp add: sample_route_class)
  have t: "truthy (PStr ''No logging for this endpoint'')" by simp
  have n: "filter is_notice
     (trace (snd (skip_logging_request sample_request (PStr ''No logging for this endpoint'')
                    world0))) =
     [Emit INFO (''GET /a/b/c?page=2 (not logged because '' @ [CHR 0x27] @
                 ''No logging for this endpoint'' @ [CHR 0x27] @ '')'')
        (NoLoggingContext (PStr ''No logging for this endpoint''))]"
    by (simp add: skip_logging_request_def Logger_log_def world0_def sample_request_def
        Let_def)
  from sample_call_suppressed [OF r t] r n show ?thesis
    by simp
qed

text \<open>
  C2, as amended. The structured record of a request that is not suppressed is emitted
  at INFO, and so is each of its lines at the sink; the configured level, validated by
  \<open>__init__\<close>, has no influence on a call.
\<close>

theorem record_emitted_at_INFO:
  assumes "get_response self request = Inr response"
    and "fst (should_log_route env request w) = Inr reason"
    and "\<not> truthy reason"
  shows "(\<exists>msg.
            filter is_emit (trace (snd (call self env request w))) =
              filter is_emit (trace w) @
              [Emit INFO (dumps env msg) (RequestContext request response)] \<and>
            filter is_sink (trace (snd (call self env request w))) =
              filter is_sink (trace w) @
              map (\<lambda>line. Sink INFO line (RequestContext request response))
                (re_split_lines (dumps env msg))) \<and>
         (\<forall>level. call (self\<lparr>log_level := level\<rparr>) env request w = call self env request w)"
proof (intro conjI allI)
  from call_logged [OF assms, of w] obtain msg where
    c: "call self env request w =
             (Inr response,
              w\<lparr>reads := Suc (Suc (reads w)),
                trace := trace w @
                  [Delegate request, Resolve (path request),
                   Emit INFO (dumps env msg) (RequestContext request response)] @
                  map (\<lambda>line. Sink INFO line (RequestContext request response))
                      (re_split_lines (dumps env msg))\<rparr>)"
    by blast
  show "\<exists>msg.
            filter is_emit (trace (snd (call self env request w))) =
              filter is_emit (trace w) @
              [Emit INFO (dumps env msg) (RequestContext request response)] \<and>
            filter is_sink (trace (snd (call self env request w))) =
              filter is_sink (trace w) @
              map (\<lambda>line. Sink INFO line (RequestContext request response))
                (re_split_lines (dumps env msg))"
    by (intro exI [of _ msg]) (simp add: c filter_sinks filter_sink_lines)
next
  fix level
  show "call (self\<lparr>log_level := level\<rparr>) env request w = call self env request w"
    by (simp add: call_def utcnow_def Let_def process_response_ignores_log_level
        split: sum.splits)
qed

theorem record_emitted_at_INFO_witness:
  "get_response \<lparr>get_response = sample_handler, log_level = WARNING\<rparr> sample_request =
     Inr sample_response \<and>
   fst (should_log_route (sample_env (plain_view None) 5 9) sample_request world0) = Inr PNone \<and>
   \<not> truthy PNone \<and>
   (\<exists>msg.
      filter is_emit
        (trace (snd (call \<lparr>get_response = sample_handler, log_level = WARNING\<rparr>
                       (sample_env (plain_view None) 5 9) sample_request world0))) =
        [Emit INFO (sample_dumps msg) (RequestContext sample_request sample_response)]) \<and>
   call \<lparr>get_response = sample_handler, log_level = DEBUG\<rparr>
     (sample_env (plain_view None) 5 9) sample_request world0 =
   call \<lparr>get_response = sample_handler, log_level = WARNING\<rparr>
     (sample_env (plain_view None) 5 9) sample_request world0"
proof -
  have h: "get_response \<lparr>get_response = sample_handler, log_level = WARNING\<rparr> sample_request =
             Inr sample_response"
    by (simp add: sample_handler_def)
  have r: "fst (should_log_route (sample_env (plain_view None) 5 9) sample_request world0) =
             Inr PNone"
    by (simp add: sample_route_plain)
  have f: "\<not> truthy PNone" by simp
  note t = record_emitted_at_INFO [OF h r f]
  from t obtain msg where
    e: "filter is_emit
        (trace (snd (call \<lparr>get_response = sample_handler, log_level = WARNING\<rparr>
                       (sample_env (plain_view None) 5 9) sample_request world0))) =
        filter is_emit (trace world0) @
        [Emit INFO (dumps (sample_env (plain_view None) 5 9) msg)
           (RequestContext sample_request sample_response)]"
    by (elim exE conjE) (rule that)
  then have first: "\<exists>msg.
      filter is_emit
        (trace (snd (call \<lparr>get_response = sample_handler, log_level = WARNING\<rparr>
                       (sample_env (plain_view None) 5 9) sample_request world0))) =
        [Emit INFO (sample_dumps msg) (RequestContext sample_request sample_response)]"
    by (intro exI [of _ msg]) (simp add: world0_def sample_env_def)
  from t have "call (\<lparr>get_response = sample_handler, log_level = WARNING\<rparr>\<lparr>log_level := DEBUG\<rparr>)
                 (sample_env (plain_view None) 5 9) sample_request world0 =
               call \<lparr>get_response = sample_handler, log_level = WARNING\<rparr>
                 (sample_env (plain_view None) 5 9) sample_request world0"
    by (elim conjE) (rule spec)
  then have second: "call \<lparr>get_response = sample_handler, log_level = DEBUG\<rparr>
     (sample_env (plain_view None) 5 9) sample_request world0 =
   call \<lparr>get_response = sample_handler, log_level = WARNING\<rparr>
     (sample_env (plain_view None) 5 9) sample_request world0"
    by simp
  from h r f first second show ?thesis by (intro conjI)
qed

theorem record_level_counterexample:
  "init sample_handler (sample_settings WARNING) =
     Inr \<lparr>get_response = sample_handler, log_level = WARNING\<rparr> \<and>
   init sample_handler no_settings =
     Inr \<lparr>get_response = sample_handler, log_level = DEBUG\<rparr> \<and>
   filter is_emit
     (trace (snd (call \<lparr>get_response = sample_handler, log_level = WARNING\<rparr>
                    (sample_env (plain_view None) 5 9) sample_request world0))) =
     [Emit INFO
        (sample_dumps
           [(''status_code'', FInt 200), (''time'', FSeconds 4),
            (''method'', FStr ''GET''), (''path'', FStr ''/a/b/c''),
            (''user'', FStr ''alice''), (''HTTP_X_FOO'', FStr ''bar''),
            (''path_0'', FStr []), (''path_1'', FStr ''a''),
            (''path_2'', FStr ''b''), (''path_3'', FStr ''c'')])
        (RequestContext sample_request sample_response)] \<and>
   filter is_emit
     (trace (snd (call \<lparr>get_response = sample_handler, log_level = DEBUG\<rparr>
                    (sample_env (plain_view None) 5 9) sample_request world0))) =
     [Emit INFO
        (sample_dumps
           [(''status_code'', FInt 200), (''time'', FSeconds 4),
            (''method'', FStr ''GET''), (''path'', FStr ''/a/b/c''),
            (''user'', FStr ''alice''), (''HTTP_X_FOO'', FStr ''bar''),
            (''path_0'', FStr []), (''path_1'', FStr ''a''),
            (''path_2'', FStr ''b''), (''path_3'', FStr ''c'')])
        (RequestContext sample_request sample_response)] \<and>
   INFO \<noteq> WARNING \<and> INFO \<noteq> DEBUG"
proof -
  have r: "fst (should_log_route (sample_env (plain_view None) 5 9) sample_request world0) =
             Inr PNone"
    by (simp add: sample_route_plain)
  have f: "\<not> truthy PNone" by simp
  have i: "init sample_handler (sample_settings WARNING) =
             Inr \<lparr>get_response = sample_handler, log_level = WARNING\<rparr>"
    "init sample_handler no_settings =
             Inr \<lparr>get_response = sample_handler, log_level = DEBUG\<rparr>"
    by (simp_all add: init_def sample_settings_def no_settings_def DEFAULT_LOG_LEVEL_def
        NOTSET_def DEBUG_def INFO_def WARNING_def ERROR_def CRITICAL_def)
  show ?thesis
    unfolding sample_call_logged [OF r f]
    by (simp add: i filter_sinks) (simp add: INFO_def WARNING_def DEBUG_def)
qed

section \<open>The suppression resolver\<close>

text \<open>
  C3, as amended. When the route handle has both a class reference and an action map and
  the lowercased method is absent from the map, the handle itself stays the effective
  handler: the resolver returns the handle's own \<open>no_logging\<close> marker, and \<open>None\<close> only when
  the handle has no marker.
\<close>

theorem absent_action_reads_view_marker:
  assumes "resolve env (path request) = Inr v"
    and "cls v = Some c"
    and "actions v = Some acts"
    and "map_of acts (lower (method request)) = None"
  shows "fst (should_log_route env request w) =
           Inr (case view_no_logging v of None \<Rightarrow> PNone | Some x \<Rightarrow> x)"
  using assms by (simp add: should_log_route_def)

theorem absent_action_reads_view_marker_witness:
  "resolve (sample_env (viewset_view (Some (PInt 7))) 5 9) (path sample_request) =
     Inr (viewset_view (Some (PInt 7))) \<and>
   cls (viewset_view (Some (PInt 7))) = Some [(''create'', \<lparr>no_logging = None\<rparr>)] \<and>
   actions (viewset_view (Some (PInt 7))) = Some [(''post'', ''create'')] \<and>
   map_of [(''post'', ''create'')] (lower (method sample_request)) = None \<and>
   fst (should_log_route (sample_env (viewset_view (Some (PInt 7))) 5 9) sample_request world0) =
     Inr (PInt 7)"
proof -
  have a: "resolve (sample_env (viewset_view (Some (PInt 7))) 5 9) (path sample_request) =
     Inr (viewset_view (Some (PInt 7)))"
    by (simp add: sample_env_def sample_request_def)
  have b: "cls (viewset_view (Some (PInt 7))) = Some [(''create'', \<lparr>no_logging = None\<rparr>)]"
    by (simp add: viewset_view_def)
  have c: "actions (viewset_view (Some (PInt 7))) = Some [(''post'', ''create'')]"
    by (simp add: viewset_view_def)
  have d: "map_of [(''post'', ''create'')] (lower (method sample_request)) = None"
    by (simp add: sample_request_def lower_GET)
  from absent_action_reads_view_marker [OF a b c d, of world0] a b c d show ?thesis
    by (simp add: viewset_view_def)
qed

theorem absent_action_returns_none_counterexample:
  "resolve (sample_env (viewset_view (Some (PStr ''skip''))) 5 9) (path sample_request) =
     Inr (viewset_view (Some (PStr ''skip''))) \<and>
   cls (viewset_view (Some (PStr ''skip''))) = Some [(''create'', \<lparr>no_logging = None\<rparr>)] \<and>
   actions (viewset_view (Some (PStr ''skip''))) = Some [(''post'', ''create'')] \<and>
   map_of [(''post'', ''create'')] (lower (method sample_request)) = None \<and>
   fst (should_log_route (sample_env (viewset_view (Some (PStr ''skip''))) 5 9)
          sample_request world0) = Inr (PStr ''skip'') \<and>
   fst (should_log_route (sample_env (viewset_view (Some (PStr ''skip''))) 5 9)
          sample_request world0) \<noteq> Inr PNone"
  by (simp add: sample_route_viewset)
     (simp add: sample_env_def sample_request_def viewset_view_def lower_GET)

text \<open>
  C4, as amended. The resolver raises in exactly three cases, all of them after the route
  has resolved: \<open>request.method\<close> is not a string; the handle has a class reference and an
  \<open>actions\<close> attribute that is not a mapping; the action map gives, for the method, a
  truthy action name that is not a string. In every other case it returns: \<open>None\<close> when
  the router fails (whatever the request), \<open>None\<close> when the method is no attribute of the
  class (with \<open>cls\<close> and no action map, or with \<open>view_class\<close>) and when the action named by
  the action map is no attribute of the class. When the action map has no entry for the
  method, or the handle has none of the recognised shapes, the handle itself is the
  effective handler and the resolver returns the handle's own marker, \<open>None\<close> only when it
  has none.
\<close>

theorem should_log_route_raises_exactly:
  "((\<exists>e. fst (should_log_route_obj env request w) = Inl e) \<longleftrightarrow>
      (\<exists>view. resolve env (obj_path request) = Inr view \<and>
         (obj_method request = None \<or>
          (\<exists>c. obj_cls view = Some c \<and> obj_actions view = Some NotAMapping) \<or>
          (\<exists>c acts m n. obj_cls view = Some c \<and> obj_actions view = Some (ActionMap acts) \<and>
             obj_method request = Some m \<and> map_of acts (lower m) = Some n \<and> truthy n \<and>
             (\<forall>name. n \<noteq> PStr name))))) \<and>
   ((\<exists>e. resolve env (obj_path request) = Inl e) \<longrightarrow>
      fst (should_log_route_obj env request w) = Inr PNone) \<and>
   (\<forall>view m c. resolve env (obj_path request) = Inr view \<and> obj_method request = Some m \<and>
        obj_cls view = Some c \<and> obj_actions view = None \<and> map_of c (lower m) = None \<longrightarrow>
      fst (should_log_route_obj env request w) = Inr PNone) \<and>
   (\<forall>view m vc. resolve env (obj_path request) = Inr view \<and> obj_method request = Some m \<and>
        obj_cls view = None \<and> obj_view_class view = Some vc \<and> map_of vc (lower m) = None \<longrightarrow>
      fst (should_log_route_obj env request w) = Inr PNone) \<and>
   (\<forall>view m c acts name. resolve env (obj_path request) = Inr view \<and>
        obj_method request = Some m \<and> obj_cls view = Some c \<and>
        obj_actions view = Some (ActionMap acts) \<and> map_of acts (lower m) = Some (PStr name) \<and>
        name \<noteq> [] \<and> map_of c name = None \<longrightarrow>
      fst (should_log_route_obj env request w) = Inr PNone) \<and>
   (\<forall>view m c acts. resolve env (obj_path request) = Inr view \<and>
        obj_method request = Some m \<and> obj_cls view = Some c \<and>
        obj_actions view = Some (ActionMap acts) \<and> map_of acts (lower m) = None \<longrightarrow>
      fst (should_log_route_obj env request w) =
        Inr (case obj_no_logging view of None \<Rightarrow> PNone | Some x \<Rightarrow> x)) \<and>
   (\<forall>view m. resolve env (obj_path request) = Inr view \<and> obj_method request = Some m \<and>
        obj_cls view = None \<and> obj_view_class view = None \<longrightarrow>
      fst (should_log_route_obj env request w) =
        Inr (case obj_no_logging view of None \<Rightarrow> PNone | Some x \<Rightarrow> x))"
proof (intro conjI allI impI)
  show "(\<exists>e. fst (should_log_route_obj env request w) = Inl e) \<longleftrightarrow>
      (\<exists>view. resolve env (obj_path request) = Inr view \<and>
         (obj_method request = None \<or>
          (\<exists>c. obj_cls view = Some c \<and> obj_actions view = Some NotAMapping) \<or>
          (\<exists>c acts m n. obj_cls view = Some c \<and> obj_actions view = Some (ActionMap acts) \<and>
             obj_method request = Some m \<and> map_of acts (lower m) = Some n \<and> truthy n \<and>
             (\<forall>name. n \<noteq> PStr name))))"
    by (auto simp: should_log_route_obj_def Let_def subscript_def
        split: sum.splits option.splits actions_value.splits pyval.splits)
qed (auto simp: should_log_route_obj_def class_getattr_def subscript_def)

theorem should_log_route_raises_exactly_witness:
  "(\<exists>e. fst (should_log_route_obj (sample_env_obj (view_obj_of (plain_view None)) 5 9)
            (sample_request_obj\<lparr>obj_method := None\<rparr>) world0) = Inl e) \<and>
   (\<exists>e. fst (should_log_route_obj
            (sample_env_obj \<lparr>obj_cls = Some [], obj_actions = Some NotAMapping,
                              obj_view_class = None, obj_no_logging = None\<rparr> 5 9)
            sample_request_obj world0) = Inl e) \<and>
   (\<exists>e. fst (should_log_route_obj
            (sample_env_obj \<lparr>obj_cls = Some [], obj_actions = Some (ActionMap [(''get'', PInt 1)]),
                              obj_view_class = None, obj_no_logging = None\<rparr> 5 9)
            sample_request_obj world0) = Inl e) \<and>
   fst (should_log_route_obj (sample_env_obj (view_obj_of (plain_view None)) 5 9)
          (sample_request_obj\<lparr>obj_method := None, obj_path := ''/nowhere''\<rparr>) world0) =
     Inr PNone \<and>
   fst (should_log_route_obj
          (sample_env_obj \<lparr>obj_cls = Some [(''post'', \<lparr>no_logging = Some (PBool True)\<rparr>)],
                            obj_actions = None, obj_view_class = None,
                            obj_no_logging = Some (PBool True)\<rparr> 5 9)
          sample_request_obj world0) = Inr PNone \<and>
   fst (should_log_route_obj (sample_env_obj (view_obj_of (class_view (Some (PBool True)))) 5 9)
          (sample_request_obj\<lparr>obj_method := Some ''POST''\<rparr>) world0) = Inr PNone \<and>
   fst (should_log_route_obj
          (sample_env_obj \<lparr>obj_cls = Some [], obj_actions = Some (ActionMap [(''get'', PStr ''list'')]),
                            obj_view_class = None, obj_no_logging = Some (PBool True)\<rparr> 5 9)
          sample_request_obj world0) = Inr PNone \<and>
   fst (should_log_route_obj (sample_env_obj (view_obj_of (viewset_view (Some (PStr ''quiet'')))) 5 9)
          sample_request_obj world0) = Inr (PStr ''quiet'') \<and>
   fst (should_log_route_obj (sample_env_obj (view_obj_of (plain_view (Some (PStr ''quiet'')))) 5 9)
          sample_request_obj world0) = Inr (PStr ''quiet'')"
proof -
  have a: "\<exists>e. fst (should_log_route_obj (sample_env_obj (view_obj_of (plain_view None)) 5 9)
            (sample_request_obj\<lparr>obj_method := None\<rparr>) world0) = Inl e"
    using should_log_route_raises_exactly
      [of "sample_env_obj (view_obj_of (plain_view None)) 5 9"
          "sample_request_obj\<lparr>obj_method := None\<rparr>" world0]
    by (simp add: sample_env_obj_def sample_request_obj_def)
  have b: "\<exists>e. fst (should_log_route_obj
            (sample_env_obj \<lparr>obj_cls = Some [], obj_actions = Some NotAMapping,
                              obj_view_class = None, obj_no_logging = None\<rparr> 5 9)
            sample_request_obj world0) = Inl e"
    using should_log_route_raises_exactly
      [of "sample_env_obj \<lparr>obj_cls = Some [], obj_actions = Some NotAMapping,
                              obj_view_class = None, obj_no_logging = None\<rparr> 5 9"
          sample_request_obj world0]
    by (simp add: sample_env_obj_def sample_request_obj_def)
  have c: "\<exists>e. fst (should_log_route_obj
            (sample_env_obj \<lparr>obj_cls = Some [], obj_actions = Some (ActionMap [(''get'', PInt 1)]),
                              obj_view_class = None, obj_no_logging = None\<rparr> 5 9)
            sample_request_obj world0) = Inl e"
    using should_log_route_raises_exactly
      [of "sample_env_obj \<lparr>obj_cls = Some [], obj_actions = Some (ActionMap [(''get'', PInt 1)]),
                              obj_view_class = None, obj_no_logging = None\<rparr> 5 9"
          sample_request_obj world0]
    by (simp add: sample_env_obj_def sample_request_obj_def lower_GET)
  have d: "fst (should_log_route_obj (sample_env_obj (view_obj_of (plain_view None)) 5 9)
          (sample_request_obj\<lparr>obj_method := None, obj_path := ''/nowhere''\<rparr>) world0) =
     Inr PNone"
    using should_log_route_raises_exactly
      [of "sample_env_obj (view_obj_of (plain_view None)) 5 9"
          "sample_request_obj\<lparr>obj_method := None, obj_path := ''/nowhere''\<rparr>" world0]
    by (simp add: sample_env_obj_def sample_request_obj_def)
  have e: "fst (should_log_route_obj
          (sample_env_obj \<lparr>obj_cls = Some [(''post'', \<lparr>no_logging = Some (PBool True)\<rparr>)],
                            obj_actions = None, obj_view_class = None,
                            obj_no_logging = Some (PBool True)\<rparr> 5 9)
          sample_request_obj world0) = Inr PNone"
    using should_log_route_raises_exactly
      [of "sample_env_obj \<lparr>obj_cls = Some [(''post'', \<lparr>no_logging = Some (PBool True)\<rparr>)],
                            obj_actions = None, obj_view_class = None,
                            obj_no_logging = Some (PBool True)\<rparr> 5 9"
          sample_request_obj world0]
    by (simp add: sample_env_obj_def sample_request_obj_def lower_GET)
  have f: "fst (should_log_route_obj
          (sample_env_obj (view_obj_of (class_view (Some (PBool True)))) 5 9)
          (sample_request_obj\<lparr>obj_method := Some ''POST''\<rparr>) world0) = Inr PNone"
    using should_log_route_raises_exactly
      [of "sample_env_obj (view_obj_of (class_view (Some (PBool True)))) 5 9"
          "sample_request_obj\<lparr>obj_method := Some ''POST''\<rparr>" world0]
    by (simp add: sample_env_obj_def sample_request_obj_def lower_POST class_view_def
        view_obj_of_def)
  have g: "fst (should_log_route_obj
          (sample_env_obj \<lparr>obj_cls = Some [], obj_actions = Some (ActionMap [(''get'', PStr ''list'')]),
                            obj_view_class = None, obj_no_logging = Some (PBool True)\<rparr> 5 9)
          sample_request_obj world0) = Inr PNone"
    using should_log_route_raises_exactly
      [of "sample_env_obj \<lparr>obj_cls = Some [], obj_actions = Some (ActionMap [(''get'', PStr ''list'')]),
                            obj_view_class = None, obj_no_logging = Some (PBool True)\<rparr> 5 9"
          sample_request_obj world0]
    by (simp add: sample_env_obj_def sample_request_obj_def lower_GET)
  have h: "fst (should_log_route_obj
          (sample_env_obj (view_obj_of (viewset_view (Some (PStr ''quiet'')))) 5 9)
          sample_request_obj world0) = Inr (PStr ''quiet'')"
    using should_log_route_raises_exactly
      [of "sample_env_obj (view_obj_of (viewset_view (Some (PStr ''quiet'')))) 5 9"
          sample_request_obj world0]
    by (simp add: sample_env_obj_def sample_request_obj_def lower_GET viewset_view_def
        view_obj_of_def)
  have i: "fst (should_log_route_obj
          (sample_env_obj (view_obj_of (plain_view (Some (PStr ''quiet'')))) 5 9)
          sample_request_obj world0) = Inr (PStr ''quiet'')"
    using should_log_route_raises_exactly
      [of "sample_env_obj (view_obj_of (plain_view (Some (PStr ''quiet'')))) 5 9"
          sample_request_obj world0]
    by (simp add: sample_env_obj_def sample_request_obj_def plain_view_def view_obj_of_def)
  from a b c d e f g h i show ?thesis by (intro conjI)
qed

theorem resolver_raises_counterexample:
  "fst (should_log_route_obj (sample_env_obj (view_obj_of (plain_view None)) 5 9)
          (sample_request_obj\<lparr>obj_method := None\<rparr>) world0) =
     Inl (AttributeError ''lower'') \<and>
   fst (should_log_route_obj
          (sample_env_obj \<lparr>obj_cls = Some [], obj_actions = Some NotAMapping,
                            obj_view_class = None, obj_no_logging = None\<rparr> 5 9)
          sample_request_obj world0) = Inl (AttributeError ''get'') \<and>
   fst (should_log_route_obj
          (sample_env_obj \<lparr>obj_cls = Some [], obj_actions = Some (ActionMap [(''get'', PInt 1)]),
                            obj_view_class = None, obj_no_logging = None\<rparr> 5 9)
          sample_request_obj world0) = Inl (TypeError ''attribute name must be string'') \<and>
   obj_actions (view_obj_of (viewset_view (Some (PBool True)))) =
     Some (ActionMap [(''post'', PStr ''create'')]) \<and>
   map_of [(''post'', PStr ''create'')] (lower ''GET'') = None \<and>
   fst (should_log_route_obj
          (sample_env_obj (view_obj_of (viewset_view (Some (PBool True)))) 5 9)
          sample_request_obj world0) = Inr (PBool True)"
  by (simp add: should_log_route_obj_def sample_env_obj_def sample_request_obj_def lower_GET
      subscript_def view_obj_of_def viewset_view_def)

section \<open>The log record\<close>

text \<open>
  C5, as amended. When the handler returns and the resolver finds no marker (or the
  router fails), the call emits exactly one structured record, at the end of its trace.
  The record has \<open>status_code\<close> equal to the response's status code and \<open>time\<close> equal to
  the second reading of the UTC clock minus the first, which is at least zero whenever
  the second reading is not earlier than the first.
\<close>

theorem unsuppressed_request_record:
  assumes "get_response self request = Inr response"
    and "fst (should_log_route env request w) = Inr PNone"
  shows "\<exists>msg d.
           trace (snd (call self env request w)) =
             trace w @
             [Delegate request, Resolve (path request),
              Emit INFO (dumps env msg) (RequestContext request response)] @
             map (\<lambda>line. Sink INFO line (RequestContext request response))
               (re_split_lines (dumps env msg)) \<and>
           length (filter is_record (trace (snd (call self env request w)))) =
             Suc (length (filter is_record (trace w))) \<and>
           map_of msg ''status_code'' = Some (FInt (status_code response)) \<and>
           map_of msg ''time'' = Some (FSeconds d) \<and>
           d = now env (Suc (reads w)) - now env (reads w) \<and>
           (now env (reads w) \<le> now env (Suc (reads w)) \<longrightarrow> 0 \<le> d)"
proof -
  have f: "\<not> truthy PNone" by simp
  from call_logged [OF assms f, of w] obtain msg where
    b: "build_message (status_code response) (now env (Suc (reads w)) - now env (reads w))
          [(''method'', method request), (''path'', path request), (''user'', username request)]
          (get_request_headers request) = Inr msg"
    and c: "call self env request w =
             (Inr response,
              w\<lparr>reads := Suc (Suc (reads w)),
                trace := trace w @
                  [Delegate request, Resolve (path request),
                   Emit INFO (dumps env msg) (RequestContext request response)] @
                  map (\<lambda>line. Sink INFO line (RequestContext request response))
                      (re_split_lines (dumps env msg))\<rparr>)"
    by blast
  have s: "map_of msg ''status_code'' = Some (FInt (status_code response))"
    using message_fixed_field [OF b, of "''status_code''"] by simp
  have t: "map_of msg ''time'' =
             Some (FSeconds (now env (Suc (reads w)) - now env (reads w)))"
    using message_fixed_field [OF b, of "''time''"] by simp
  show ?thesis
    using s t by (intro exI [of _ msg] exI [of _ "now env (Suc (reads w)) - now env (reads w)"])
      (simp add: c filter_sinks)
qed

theorem unsuppressed_request_record_witness:
  "get_response \<lparr>get_response = sample_handler, log_level = DEBUG\<rparr> sample_request =
     Inr sample_response \<and>
   fst (should_log_route (sample_env (plain_view None) 5 9) sample_request world0) = Inr PNone \<and>
   (\<exists>msg. length (filter is_record
             (trace (snd (call \<lparr>get_response = sample_handler, log_level = DEBUG\<rparr>
                            (sample_env (plain_view None) 5 9) sample_request world0)))) = 1 \<and>
          map_of msg ''status_code'' = Some (FInt 200) \<and>
          map_of msg ''time'' = Some (FSeconds 4))"
proof -
  have h: "get_response \<lparr>get_response = sample_handler, log_level = DEBUG\<rparr> sample_request =
             Inr sample_response"
    by (simp add: sample_handler_def)
  have r: "fst (should_log_route (sample_env (plain_view None) 5 9) sample_request world0) =
             Inr PNone"
    by (simp add: sample_route_plain)
  from unsuppressed_request_record [OF h r] h r show ?thesis
    by (auto simp: world0_def sample_env_def sample_response_def)
qed

theorem elapsed_time_negative_counterexample:
  "get_response \<lparr>get_response = sample_handler, log_level = DEBUG\<rparr> sample_request =
     Inr sample_response \<and>
   fst (should_log_route (sample_env (plain_view None) 5 3) sample_request world0) = Inr PNone \<and>
   call \<lparr>get_response = sample_handler, log_level = DEBUG\<rparr> (sample_env (plain_view None) 5 3)
     sample_request world0 =
     (Inr sample_response,
      \<lparr>reads = 2,
       trace =
         [Delegate sample_request, Resolve ''/a/b/c'',
          Emit INFO
            (sample_dumps
               [(''status_code'', FInt 200), (''time'', FSeconds (- 2)),
                (''method'', FStr ''GET''), (''path'', FStr ''/a/b/c''),
                (''user'', FStr ''alice''), (''HTTP_X_FOO'', FStr ''bar''),
                (''path_0'', FStr []), (''path_1'', FStr ''a''),
                (''path_2'', FStr ''b''), (''path_3'', FStr ''c'')])
            (RequestContext sample_request sample_response)] @
         map (\<lambda>line. Sink INFO line (RequestContext sample_request sample_response))
           (re_split_lines
              (sample_dumps
                 [(''status_code'', FInt 200), (''time'', FSeconds (- 2)),
                  (''method'', FStr ''GET''), (''path'', FStr ''/a/b/c''),
                  (''user'', FStr ''alice''), (''HTTP_X_FOO'', FStr ''bar''),
                  (''path_0'', FStr []), (''path_1'', FStr ''a''),
                  (''path_2'', FStr ''b''), (''path_3'', FStr ''c'')]))\<rparr>) \<and>
   map_of [(''status_code'', FInt 200), (''time'', FSeconds (- 2)),
           (''method'', FStr ''GET''), (''path'', FStr ''/a/b/c''),
           (''user'', FStr ''alice''), (''HTTP_X_FOO'', FStr ''bar''),
           (''path_0'', FStr []), (''path_1'', FStr ''a''),
           (''path_2'', FStr ''b''), (''path_3'', FStr ''c'')] ''time'' = Some (FSeconds (- 2)) \<and>
   \<not> (0::int) \<le> - 2"
proof -
  have r: "fst (should_log_route (sample_env (plain_view None) 5 3) sample_request world0) =
             Inr PNone"
    by (simp add: sample_route_plain)
  have f: "\<not> truthy PNone" by simp
  show ?thesis
    unfolding sample_call_logged [OF r f]
    by (simp add: r sample_handler_def)
qed

text \<open>
  C6. The record of a request that is not suppressed has one \<open>path_i\<close> field for each
  segment of the request path split on \<open>/\<close>, numbered from 0 from left to right, and no
  other \<open>path_i\<close> field; no key occurs twice. The path fields are written last: whatever
  \<open>req_info\<close> and headers \<open>process_response\<close> is given, \<open>path_i\<close> holds segment \<open>i\<close>.
\<close>

theorem path_fields:
  assumes "get_response self request = Inr response"
    and "fst (should_log_route env request w) = Inr reason"
    and "\<not> truthy reason"
  shows "(\<exists>msg.
            filter is_record (trace (snd (call self env request w))) =
              filter is_record (trace w) @
              [Emit INFO (dumps env msg) (RequestContext request response)] \<and>
            distinct (map fst msg) \<and>
            (\<forall>i < length (str_split CHR ''/'' (path request)).
               map_of msg (path_key i) = Some (FStr (str_split CHR ''/'' (path request) ! i))) \<and>
            (\<forall>i \<ge> length (str_split CHR ''/'' (path request)).
               map_of msg (path_key i) = None)) \<and>
         (\<forall>status delta req_info headers p msg'.
            build_message status delta req_info headers = Inr msg' \<and>
            map_of req_info ''path'' = Some p \<longrightarrow>
            (\<forall>i < length (str_split CHR ''/'' p).
               map_of msg' (path_key i) = Some (FStr (str_split CHR ''/'' p ! i))))"
proof (intro conjI allI impI)
  from call_logged [OF assms, of w] obtain msg where
    b: "build_message (status_code response) (now env (Suc (reads w)) - now env (reads w))
          [(''method'', method request), (''path'', path request), (''user'', username request)]
          (get_request_headers request) = Inr msg"
    and c: "call self env request w =
             (Inr response,
              w\<lparr>reads := Suc (Suc (reads w)),
                trace := trace w @
                  [Delegate request, Resolve (path request),
                   Emit INFO (dumps env msg) (RequestContext request response)] @
                  map (\<lambda>line. Sink INFO line (RequestContext request response))
                      (re_split_lines (dumps env msg))\<rparr>)"
    by blast
  have hit: "\<forall>i < length (str_split CHR ''/'' (path request)).
               map_of msg (path_key i) = Some (FStr (str_split CHR ''/'' (path request) ! i))"
    using message_path_field [OF b] by simp
  have miss: "\<forall>i \<ge> length (str_split CHR ''/'' (path request)). map_of msg (path_key i) = None"
  proof (intro allI impI)
    fix i
    assume i: "length (str_split CHR ''/'' (path request)) \<le> i"
    have "path_key i \<notin> fst ` set msg"
      unfolding message_keys [OF b] headers_keys
      using i path_key_not_fixed [of i] path_key_not_HTTP [of i]
      by (auto dest: path_key_inj)
    then show "map_of msg (path_key i) = None"
      by (simp only: map_of_eq_None_iff not_False_eq_True)
  qed
  show "\<exists>msg.
            filter is_record (trace (snd (call self env request w))) =
              filter is_record (trace w) @
              [Emit INFO (dumps env msg) (RequestContext request response)] \<and>
            distinct (map fst msg) \<and>
            (\<forall>i < length (str_split CHR ''/'' (path request)).
               map_of msg (path_key i) = Some (FStr (str_split CHR ''/'' (path request) ! i))) \<and>
            (\<forall>i \<ge> length (str_split CHR ''/'' (path request)).
               map_of msg (path_key i) = None)"
    using hit miss message_distinct [OF b]
    by (intro exI [of _ msg]) (simp add: c filter_sinks)
next
  fix status delta req_info headers p msg' i
  assume "build_message status delta req_info headers = Inr msg' \<and>
          map_of req_info ''path'' = Some p"
    and "i < length (str_split CHR ''/'' p)"
  then show "map_of msg' (path_key i) = Some (FStr (str_split CHR ''/'' p ! i))"
    using message_path_field by blast
qed

theorem path_fields_witness:
  "get_response \<lparr>get_response = sample_handler, log_level = DEBUG\<rparr> sample_request =
     Inr sample_response \<and>
   fst (should_log_route (sample_env (plain_view None) 5 9) sample_request world0) = Inr PNone \<and>
   \<not> truthy PNone \<and>
   path sample_request = ''/a/b/c'' \<and>
   (\<exists>msg.
      filter is_record
        (trace (snd (call \<lparr>get_response = sample_handler, log_level = DEBUG\<rparr>
                       (sample_env (plain_view None) 5 9) sample_request world0))) =
        [Emit INFO (sample_dumps msg) (RequestContext sample_request sample_response)] \<and>
      map_of msg ''path_0'' = Some (FStr '''') \<and>
      map_of msg ''path_1'' = Some (FStr ''a'') \<and>
      map_of msg ''path_2'' = Some (FStr ''b'') \<and>
      map_of msg ''path_3'' = Some (FStr ''c'') \<and>
      map_of msg ''path_4'' = None) \<and>
   (\<exists>msg'.
      build_message 200 4 [(''path'', ''/a/b/c'')] [(''path_1'', ''from a header'')] = Inr msg' \<and>
      map_of msg' ''path_1'' = Some (FStr ''a''))"
proof -
  have h: "get_response \<lparr>get_response = sample_handler, log_level = DEBUG\<rparr> sample_request =
             Inr sample_response"
    by (simp add: sample_handler_def)
  have r: "fst (should_log_route (sample_env (plain_view None) 5 9) sample_request world0) =
             Inr PNone"
    by (simp add: sample_route_plain)
  have f: "\<not> truthy PNone" by simp
  have p: "path sample_request = ''/a/b/c''"
    by (simp add: sample_request_def)
  have s: "str_split CHR ''/'' ''/a/b/c'' = ['''', ''a'', ''b'', ''c'']"
    by simp
  note t = path_fields [OF h r f, unfolded p s]
  from t obtain msg where
    m: "filter is_record
        (trace (snd (call \<lparr>get_response = sample_handler, log_level = DEBUG\<rparr>
                       (sample_env (plain_view None) 5 9) sample_request world0))) =
        filter is_record (trace world0) @
        [Emit INFO (dumps (sample_env (plain_view None) 5 9) msg)
           (RequestContext sample_request sample_response)]"
    and hit: "\<forall>i < length ['''', ''a'', ''b'', ''c''].
               map_of msg (path_key i) = Some (FStr (['''', ''a'', ''b'', ''c''] ! i))"
    and miss: "\<forall>i \<ge> length ['''', ''a'', ''b'', ''c'']. map_of msg (path_key i) = None"
    by blast
  from hit [rule_format, of 0] hit [rule_format, of 1] hit [rule_format, of 2]
    hit [rule_format, of 3] miss [rule_format, of 4]
  have fields: "map_of msg ''path_0'' = Some (FStr '''')"
    "map_of msg ''path_1'' = Some (FStr ''a'')"
    "map_of msg ''path_2'' = Some (FStr ''b'')"
    "map_of msg ''path_3'' = Some (FStr ''c'')"
    "map_of msg ''path_4'' = None"
    by (simp_all add: path_key_small path_key_4)
  have first: "\<exists>msg.
      filter is_record
        (trace (snd (call \<lparr>get_response = sample_handler, log_level = DEBUG\<rparr>
                       (sample_env (plain_view None) 5 9) sample_request world0))) =
        [Emit INFO (sample_dumps msg) (RequestContext sample_request sample_response)] \<and>
      map_of msg ''path_0'' = Some (FStr '''') \<and>
      map_of msg ''path_1'' = Some (FStr ''a'') \<and>
      map_of msg ''path_2'' = Some (FStr ''b'') \<and>
      map_of msg ''path_3'' = Some (FStr ''c'') \<and>
      map_of msg ''path_4'' = None"
    using m fields by (intro exI [of _ msg]) (simp add: world0_def sample_env_def)
  obtain msg' where
    b: "build_message 200 4 [(''path'', ''/a/b/c'')] [(''path_1'', ''from a header'')] = Inr msg'"
    by (simp add: build_message_def subscript_def)
  have q: "map_of [(''path'', ''/a/b/c'')] ''path'' = Some ''/a/b/c''"
    by simp
  from t b q have "\<forall>i < length ['''', ''a'', ''b'', ''c''].
      map_of msg' (path_key i) = Some (FStr (['''', ''a'', ''b'', ''c''] ! i))"
    unfolding s [symmetric] by blast
  from this [rule_format, of 1] have "map_of msg' ''path_1'' = Some (FStr ''a'')"
    by (simp add: path_key_small)
  with b have second: "\<exists>msg'.
      build_message 200 4 [(''path'', ''/a/b/c'')] [(''path_1'', ''from a header'')] = Inr msg' \<and>
      map_of msg' ''path_1'' = Some (FStr ''a'')"
    by blast
  from h r f p first second show ?thesis by blast
qed

lemma key_set_split:
  "(k \<in> F \<union> {k \<in> M. P k} \<union> f ` {..<n}) \<longleftrightarrow>
     (k \<in> F \<or> (P k \<and> k \<in> M) \<or> (\<exists>i<n. k = f i))"
  by auto

text \<open>
  C7. The record of a request that is not suppressed forwards every entry of the request
  metadata whose key starts with \<open>HTTP_\<close>, under that key and with its value, and no
  other entry: the keys of the record are the five fixed fields, the \<open>HTTP_\<close> keys of the
  metadata and the path fields, and \<open>method\<close>, \<open>path\<close> and \<open>user\<close> hold the request's own
  method, path and user name.
\<close>

theorem header_forwarding:
  assumes "get_response self request = Inr response"
    and "fst (should_log_route env request w) = Inr reason"
    and "\<not> truthy reason"
    and "distinct (map fst (META request))"
  shows "\<exists>msg.
           filter is_record (trace (snd (call self env request w))) =
             filter is_record (trace w) @
             [Emit INFO (dumps env msg) (RequestContext request response)] \<and>
           (\<forall>k x. startswith k ''HTTP_'' \<and> map_of (META request) k = Some x \<longrightarrow>
                  map_of msg k = Some (FStr x)) \<and>
           (\<forall>k. k \<in> fst ` set msg \<longleftrightarrow>
                  k \<in> {''status_code'', ''time'', ''method'', ''path'', ''user''} \<or>
                  (startswith k ''HTTP_'' \<and> k \<in> fst ` set (META request)) \<or>
                  (\<exists>i < length (str_split CHR ''/'' (path request)). k = path_key i)) \<and>
           map_of msg ''method'' = Some (FStr (method request)) \<and>
           map_of msg ''path'' = Some (FStr (path request)) \<and>
           map_of msg ''user'' = Some (FStr (username request))"
proof -
  from call_logged [OF assms(1-3), of w] obtain msg where
    b: "build_message (status_code response) (now env (Suc (reads w)) - now env (reads w))
          [(''method'', method request), (''path'', path request), (''user'', username request)]
          (get_request_headers request) = Inr msg"
    and c: "call self env request w =
             (Inr response,
              w\<lparr>reads := Suc (Suc (reads w)),
                trace := trace w @
                  [Delegate request, Resolve (path request),
                   Emit INFO (dumps env msg) (RequestContext request response)] @
                  map (\<lambda>line. Sink INFO line (RequestContext request response))
                      (re_split_lines (dumps env msg))\<rparr>)"
    by blast
  have fwd: "\<forall>k x. startswith k ''HTTP_'' \<and> map_of (META request) k = Some x \<longrightarrow>
                  map_of msg k = Some (FStr x)"
  proof (intro allI impI)
    fix k x
    assume "startswith k ''HTTP_'' \<and> map_of (META request) k = Some x"
    then show "map_of msg k = Some (FStr x)"
      using message_header_field [OF b assms(4), of k x] by (elim conjE)
  qed
  have keys: "\<forall>k. k \<in> fst ` set msg \<longleftrightarrow>
                  k \<in> {''status_code'', ''time'', ''method'', ''path'', ''user''} \<or>
                  (startswith k ''HTTP_'' \<and> k \<in> fst ` set (META request)) \<or>
                  (\<exists>i < length (str_split CHR ''/'' (path request)). k = path_key i)"
    unfolding message_keys [OF b] headers_keys by (intro allI) (rule key_set_split)
  have fixed: "map_of msg ''method'' = Some (FStr (method request))"
    "map_of msg ''path'' = Some (FStr (path request))"
    "map_of msg ''user'' = Some (FStr (username request))"
    using message_fixed_field [OF b, of "''method''"] message_fixed_field [OF b, of "''path''"]
      message_fixed_field [OF b, of "''user''"]
    by simp_all
  show ?thesis
    using fwd keys fixed by (intro exI [of _ msg]) (simp add: c filter_sinks)
qed

theorem header_forwarding_witness:
  "get_response \<lparr>get_response = sample_handler, log_level = DEBUG\<rparr> sample_request =
     Inr sample_response \<and>
   fst (should_log_route (sample_env (plain_view None) 5 9) sample_request world0) = Inr PNone \<and>
   \<not> truthy PNone \<and>
   META sample_request = [(''HTTP_X_FOO'', ''bar''), (''CONTENT_LENGTH'', ''10'')] \<and>
   distinct (map fst (META sample_request)) \<and>
   (\<exists>msg.
      filter is_record
        (trace (snd (call \<lparr>get_response = sample_handler, log_level = DEBUG\<rparr>
                       (sample_env (plain_view None) 5 9) sample_request world0))) =
        [Emit INFO (sample_dumps msg) (RequestContext sample_request sample_response)] \<and>
      map_of msg ''HTTP_X_FOO'' = Some (FStr ''bar'') \<and>
      ''CONTENT_LENGTH'' \<notin> fst ` set msg)"
proof -
  have h: "get_response \<lparr>get_response = sample_handler, log_level = DEBUG\<rparr> sample_request =
             Inr sample_response"
    by (simp add: sample_handler_def)
  have r: "fst (should_log_route (sample_env (plain_view None) 5 9) sample_request world0) =
             Inr PNone"
    by (simp add: sample_route_plain)
  have f: "\<not> truthy PNone" by simp
  have m: "META sample_request = [(''HTTP_X_FOO'', ''bar''), (''CONTENT_LENGTH'', ''10'')]"
    by (simp add: sample_request_def)
  have d: "distinct (map fst (META sample_request))"
    by (simp add: m)
  from header_forwarding [OF h r f d] obtain msg where
    e: "filter is_record
        (trace (snd (call \<lparr>get_response = sample_handler, log_level = DEBUG\<rparr>
                       (sample_env (plain_view None) 5 9) sample_request world0))) =
        filter is_record (trace world0) @
        [Emit INFO (dumps (sample_env (plain_view None) 5 9) msg)
           (RequestContext sample_request sample_response)]"
    and fwd: "\<forall>k x. startswith k ''HTTP_'' \<and> map_of (META sample_request) k = Some x \<longrightarrow>
                  map_of msg k = Some (FStr x)"
    and keys: "\<forall>k. k \<in> fst ` set msg \<longleftrightarrow>
                  k \<in> {''status_code'', ''time'', ''method'', ''path'', ''user''} \<or>
                  (startswith k ''HTTP_'' \<and> k \<in> fst ` set (META sample_request)) \<or>
                  (\<exists>i < length (str_split CHR ''/'' (path sample_request)). k = path_key i)"
    by (elim exE conjE) (rule that)
  from fwd [rule_format, of "''HTTP_X_FOO''" "''bar''"]
  have foo: "map_of msg ''HTTP_X_FOO'' = Some (FStr ''bar'')"
    by (simp add: m)
  from keys [rule_format, of "''CONTENT_LENGTH''"]
  have cl: "''CONTENT_LENGTH'' \<notin> fst ` set msg"
    by (simp add: path_key_def)
  have "\<exists>msg.
      filter is_record
        (trace (snd (call \<lparr>get_response = sample_handler, log_level = DEBUG\<rparr>
                       (sample_env (plain_view None) 5 9) sample_request world0))) =
        [Emit INFO (sample_dumps msg) (RequestContext sample_request sample_response)] \<and>
      map_of msg ''HTTP_X_FOO'' = Some (FStr ''bar'') \<and>
      ''CONTENT_LENGTH'' \<notin> fst ` set msg"
    using e foo cl by (intro exI [of _ msg]) (simp add: world0_def sample_env_def)
  with h r f m d show ?thesis by (intro conjI)
qed

end
